theory Spec2Isabelle
  imports Complex_Main
begin

section \<open>Numeric conventions\<close>

text \<open>
  The repository computes with IEEE doubles.  The embedding reads every double as a real
  number and every arithmetic operation as the exact operation on reals; all statements
  below are statements about that idealisation.  Integer quantities of the source
  (angular momenta, loop counters, indices) are \<open>int\<close> or \<open>nat\<close>.

  A point or displacement in space (one row of an \<open>(N,3)\<close> array) is a triple.
\<close>

type_synonym vec3 = "real \<times> real \<times> real"

definition vadd :: "vec3 \<Rightarrow> vec3 \<Rightarrow> vec3" where
  "vadd a b = (case a of (ax, ay, az) \<Rightarrow> case b of (bx, by, bz) \<Rightarrow> (ax + bx, ay + by, az + bz))"

definition vsub :: "vec3 \<Rightarrow> vec3 \<Rightarrow> vec3" where
  "vsub a b = (case a of (ax, ay, az) \<Rightarrow> case b of (bx, by, bz) \<Rightarrow> (ax - bx, ay - by, az - bz))"

definition vscale :: "real \<Rightarrow> vec3 \<Rightarrow> vec3" where
  "vscale s a = (case a of (ax, ay, az) \<Rightarrow> (s * ax, s * ay, s * az))"

definition vdiv :: "vec3 \<Rightarrow> real \<Rightarrow> vec3" where
  "vdiv a s = (case a of (ax, ay, az) \<Rightarrow> (ax / s, ay / s, az / s))"

definition dot :: "vec3 \<Rightarrow> vec3 \<Rightarrow> real" where
  "dot a b = (case a of (ax, ay, az) \<Rightarrow> case b of (bx, by, bz) \<Rightarrow> ax * bx + ay * by + az * bz)"

text \<open>
  \<open>torch.erf\<close> and \<open>jax.scipy.special.erf\<close> are the error function, given here by its
  Maclaurin series.
\<close>

definition erf :: "real \<Rightarrow> real" where
  "erf x = 2 / sqrt pi * (\<Sum>n. (- 1) ^ n * x ^ (2 * n + 1) / (fact n * real (2 * n + 1)))"

section \<open>Dense arrays by index\<close>

text \<open>
  A dense array of rank \<open>r\<close> is the function from its index vectors (lists of length
  \<open>r\<close>) to its entries; the shape is carried beside it.  The arrays whose last axis is the
  Cartesian axis of length 3 are arrays of \<open>vec3\<close> of one rank less.
\<close>

type_synonym 'a tensor = "nat list \<Rightarrow> 'a"

text \<open>
  \<open>np.transpose(t, axes)\<close> and \<open>t.permute(axes)\<close>: axis \<open>m\<close> of the result is axis
  \<open>axes ! m\<close> of \<open>t\<close>, so the entry at \<open>idx\<close> is the entry of \<open>t\<close> at the index vector
  \<open>src\<close> with \<open>src ! (axes ! m) = idx ! m\<close>.
\<close>

definition np_transpose :: "nat list \<Rightarrow> 'a tensor \<Rightarrow> 'a tensor" where
  "np_transpose axes t idx =
     t (fold (\<lambda>m src. src[axes ! m := idx ! m]) [0..<length axes] (replicate (length axes) 0))"

text \<open>
  \<open>np.broadcast_to(v, (n, ..., n))\<close> and \<open>v.expand(n, ..., -1)\<close> of a rank-1 array (or of
  an \<open>(n,3)\<close> array of points): the entry depends on the last index only; an axis of
  length 1 is stretched.
\<close>

definition broadcast_to :: "'a list \<Rightarrow> 'a tensor" where
  "broadcast_to v idx = (if length v = 1 then v ! 0 else v ! last idx)"

text \<open>Broadcasting an array along one new leading axis.\<close>

definition broadcast_lead :: "'a tensor \<Rightarrow> 'a tensor" where
  "broadcast_lead t idx = t (tl idx)"

datatype shape_error = ShapeError

section \<open>The s-orbital kernels of \<open>integrals.py\<close>\<close>

definition gp :: "real \<Rightarrow> real \<Rightarrow> vec3 \<Rightarrow> vec3 \<Rightarrow> vec3 \<times> real" where
  "gp aa bb A B =
     (let R = vdiv (vadd (vscale aa A) (vscale bb B)) (aa + bb);
          c = exp (dot (vsub A B) (vsub A B) * (- aa * bb / (aa + bb)))
      in (R, c))"

definition normalize_s :: "real \<Rightarrow> real" where
  "normalize_s aa = (2 * aa / pi) powr (3 / 4)"

datatype boys_branch = Series | ErfForm

definition torchboys_branch :: "real \<Rightarrow> boys_branch" where
  "torchboys_branch arg = (if arg < 1 / 10 ^ 8 then Series else ErfForm)"

definition torchboys :: "real \<Rightarrow> real \<Rightarrow> real" where
  "torchboys nu arg =
     (case torchboys_branch arg of
        Series \<Rightarrow> 1 / (2 * nu + 1) - arg / (2 * nu + 3)
      | ErfForm \<Rightarrow> erf (sqrt arg) * sqrt pi / (2 * sqrt arg))"

definition eri :: "real \<Rightarrow> real \<Rightarrow> real \<Rightarrow> real \<Rightarrow> vec3 \<Rightarrow> vec3 \<Rightarrow> vec3 \<Rightarrow> vec3 \<Rightarrow> real" where
  "eri aa bb cc dd A B C D =
     (let g1 = aa + bb;
          g2 = cc + dd;
          Rp = vdiv (vadd (vscale aa A) (vscale bb B)) (aa + bb);
          tmpc1 = dot (vsub A B) (vsub A B) * ((- aa * bb) / (aa + bb));
          c1 = exp tmpc1;
          Rq = vdiv (vadd (vscale cc C) (vscale dd D)) (cc + dd);
          tmpc2 = dot (vsub C D) (vsub C D) * ((- cc * dd) / (cc + dd));
          c2 = exp tmpc2;
          Na = normalize_s aa; Nb = normalize_s bb; Nc = normalize_s cc; Nd = normalize_s dd;
          delta = 1 / (4 * g1) + 1 / (4 * g2);
          arg = dot (vsub Rp Rq) (vsub Rp Rq) / (4 * delta);
          F = torchboys 0 arg
      in F * Na * Nb * Nc * Nd * c1 * c2 * 2 * pi\<^sup>2 / (g1 * g2) * sqrt (pi / (g1 + g2)))"



section \<open>The vectorised s-orbital path of \<open>fast_integrals.py\<close>\<close>

text \<open>
  \<open>np.repeat(geom, 20, axis=0).reshape(-1,3)\<close>: every row of \<open>geom\<close> twenty times in a row.
\<close>

definition repeat_centers :: "vec3 list \<Rightarrow> vec3 list" where
  "repeat_centers geom = concat (map (replicate 20) geom)"

text \<open>
  \<open>tei_setup\<close>.  \<open>np.broadcast_to(centers, (nbf,nbf,nbf,nbf,3))\<close> raises unless \<open>centers\<close>
  has \<open>nbf\<close> rows or one row.  The argument \<open>nbf_per_atom\<close> is not read.
\<close>

definition tei_setup :: "vec3 list \<Rightarrow> real list \<Rightarrow> nat \<Rightarrow> shape_error + (real tensor \<times> real tensor)" where
  "tei_setup geom basis nbf_per_atom =
     (let nbf = length basis;
          centers = repeat_centers geom
      in if length centers \<noteq> nbf \<and> length centers \<noteq> 1 then Inl ShapeError
         else
           let norm = map (\<lambda>b. (2 * b / pi) powr (3 / 4)) basis;
               normtensor = (\<lambda>idx. norm ! (idx ! 0) * norm ! (idx ! 1) * norm ! (idx ! 2) * norm ! (idx ! 3));
               tmp1 = broadcast_to basis;
               aa_plus_bb = (\<lambda>idx. np_transpose [0, 3, 1, 2] tmp1 idx + np_transpose [3, 0, 1, 2] tmp1 idx);
               cc_plus_dd = np_transpose [2, 3, 0, 1] aa_plus_bb;
               aa_times_bb = (\<lambda>idx. np_transpose [0, 3, 1, 2] tmp1 idx * np_transpose [3, 0, 1, 2] tmp1 idx);
               cc_times_dd = np_transpose [2, 3, 0, 1] aa_times_bb;
               tmp2 = broadcast_to centers;
               AminusB = (\<lambda>idx. vsub (np_transpose [0, 3, 1, 2] tmp2 idx) (np_transpose [3, 0, 1, 2] tmp2 idx));
               CminusD = np_transpose [2, 3, 0, 1] AminusB;
               contract_AminusB = (\<lambda>idx. dot (AminusB idx) (AminusB idx));
               c1 = (\<lambda>idx. exp (contract_AminusB idx * - aa_times_bb idx / aa_plus_bb idx));
               contract_CminusD = (\<lambda>idx. dot (CminusD idx) (CminusD idx));
               c2 = (\<lambda>idx. exp (contract_CminusD idx * - cc_times_dd idx / cc_plus_dd idx));
               weighted_centers = (\<lambda>idx. vscale (tmp1 idx) (tmp2 idx));
               tmpAB = (\<lambda>idx. vadd (np_transpose [0, 3, 1, 2] weighted_centers idx)
                                   (np_transpose [3, 0, 1, 2] weighted_centers idx));
               tmpCD = np_transpose [2, 3, 0, 1] tmpAB;
               Rp = (\<lambda>idx. vscale (1 / aa_plus_bb idx) (tmpAB idx));
               Rq = (\<lambda>idx. vscale (1 / cc_plus_dd idx) (tmpCD idx));
               delta = (\<lambda>idx. 1 / (4 * aa_plus_bb idx) + 1 / (4 * cc_plus_dd idx));
               boys_arg = (\<lambda>idx. dot (vsub (Rp idx) (Rq idx)) (vsub (Rp idx) (Rq idx)) / (4 * delta idx));
               G = (\<lambda>idx. c1 idx * c2 idx * normtensor idx * 2 * pi\<^sup>2 / (aa_plus_bb idx * cc_plus_dd idx)
                          * sqrt (pi / (aa_plus_bb idx + cc_plus_dd idx)))
           in Inr (G, boys_arg))"

text \<open>
  The masked Boys value of \<open>tei_finish\<close> and \<open>oei_finish\<close>: \<open>mask1\<close> selects the entries
  with \<open>boys_arg <= 1e-8\<close>, \<open>mask2\<close> the others, and each expression is evaluated on the
  selected entries only.
\<close>

definition mask_branch :: "real \<Rightarrow> boys_branch" where
  "mask_branch x = (if x \<le> 1 / 10 ^ 8 then Series else ErfForm)"

definition masked_boys :: "real \<Rightarrow> real" where
  "masked_boys x =
     (case mask_branch x of
        Series \<Rightarrow> 1 - x / 3
      | ErfForm \<Rightarrow> erf (sqrt x) * sqrt pi / (2 * sqrt x))"

definition tei_finish :: "real tensor \<Rightarrow> real tensor \<Rightarrow> real tensor" where
  "tei_finish Gtmp boys_arg = (let F = (\<lambda>idx. masked_boys (boys_arg idx)) in (\<lambda>idx. F idx * Gtmp idx))"

text \<open>
  \<open>oei_setup\<close>.  \<open>np.broadcast_to(centers, (nbf,nbf,3))\<close> raises unless \<open>centers\<close> has
  \<open>nbf\<close> rows or one row, and \<open>np.einsum('i,ij->ij', basis, centers)\<close> raises unless it has
  \<open>nbf\<close> rows.  The arguments \<open>nbf_per_atom\<close> and \<open>charge_per_atom\<close> are not read.
\<close>

definition oei_setup ::
  "vec3 list \<Rightarrow> real list \<Rightarrow> nat \<Rightarrow> real list
     \<Rightarrow> shape_error + (real tensor \<times> real tensor \<times> real tensor \<times> real tensor)" where
  "oei_setup geom basis nbf_per_atom charge_per_atom =
     (let nbf = length basis;
          centers = repeat_centers geom
      in if length centers \<noteq> nbf then Inl ShapeError
         else
           let norm = map (\<lambda>b. (2 * b / pi) powr (3 / 4)) basis;
               normtensor = (\<lambda>idx. norm ! (idx ! 0) * norm ! (idx ! 1));
               aa_times_bb = (\<lambda>idx. basis ! (idx ! 0) * basis ! (idx ! 1));
               aa_plus_bb = (\<lambda>idx. broadcast_to basis idx + np_transpose [1, 0] (broadcast_to basis) idx);
               term = (\<lambda>idx. (pi / aa_plus_bb idx) powr (3 / 2));
               tmpA = broadcast_to centers;
               AminusB = (\<lambda>idx. vsub (tmpA idx) (np_transpose [1, 0] tmpA idx));
               AmBAmB = (\<lambda>idx. dot (AminusB idx) (AminusB idx));
               coeff = (\<lambda>idx. exp (AmBAmB idx * (- aa_times_bb idx / aa_plus_bb idx)));
               S = (\<lambda>idx. normtensor idx * coeff idx * term idx);
               P = (\<lambda>idx. aa_times_bb idx / aa_plus_bb idx);
               T = (\<lambda>idx. S idx * (3 * P idx + 2 * P idx * P idx * - AmBAmB idx));
               aatimesA = map2 vscale basis centers;
               numerator = (\<lambda>idx. vadd (aatimesA ! (idx ! 0)) (aatimesA ! (idx ! 1)));
               R = (\<lambda>idx. vscale (1 / aa_plus_bb idx) (numerator idx));
               R_per_atom = broadcast_lead R;
               expanded_geom = np_transpose [2, 1, 0] (broadcast_to geom);
               Rminusgeom = (\<lambda>idx. vsub (R_per_atom idx) (expanded_geom idx));
               contracted = (\<lambda>idx. dot (Rminusgeom idx) (Rminusgeom idx));
               boys_arg = (\<lambda>idx. contracted idx * aa_plus_bb (tl idx));
               Vtmp = (\<lambda>idx. normtensor idx * coeff idx * 2 * pi / aa_plus_bb idx)
           in Inr (S, T, Vtmp, boys_arg))"

definition oei_finish :: "nat \<Rightarrow> real tensor \<Rightarrow> real tensor \<Rightarrow> real list \<Rightarrow> real tensor" where
  "oei_finish natom Vtmp boys_arg charge_per_atom =
     (let F = (\<lambda>idx. masked_boys (boys_arg idx));
          Fcharge = (\<lambda>idx. - charge_per_atom ! (idx ! 0) * F idx);
          Ffinal = (\<lambda>idx. \<Sum>a \<leftarrow> [0..<natom]. Fcharge (a # idx));
          V = (\<lambda>idx. Vtmp idx * Ffinal idx)
      in V)"

section \<open>The general one-electron engine of \<open>oei.py\<close>\<close>

subsection \<open>Array access and counting loops\<close>

text \<open>
  Reading a JAX array at a traced integer index: a negative index counts from the end, and
  an index outside the array is clamped to its bounds (the array is non-empty).
\<close>

definition jget :: "'a list \<Rightarrow> int \<Rightarrow> 'a" where
  "jget xs i =
     (let n = int (length xs);
          j = (if i < 0 then i + n else i)
      in xs ! nat (max 0 (min j (n - 1))))"

text \<open>
  \<open>jax.ops.index_add(x, idx, v)\<close>: a negative index counts from the end, and an update
  outside the array is dropped.
\<close>

definition index_add :: "real list \<Rightarrow> int \<Rightarrow> real \<Rightarrow> real list" where
  "index_add A i v =
     (let n = int (length A);
          j = (if i < 0 then i + n else i)
      in if 0 \<le> j \<and> j < n then A[nat j := A ! nat j + v] else A)"

definition index_add2 :: "real list list \<Rightarrow> int \<times> int \<Rightarrow> real \<Rightarrow> real list list" where
  "index_add2 S ij v =
     (case ij of (i, j) \<Rightarrow>
        let n = int (length S);
            i' = (if i < 0 then i + n else i)
        in if 0 \<le> i' \<and> i' < n then S[nat i' := index_add (S ! nat i') j v] else S)"

text \<open>
  The counting loops written with \<open>loops.Scope\<close>:
  \<^verbatim>\<open>s.i = i0;  for _ in s.while_range(lambda: s.i < K): body; s.i += 1\<close> is
  \<open>count_up K body (i0, s)\<close>, and
  \<^verbatim>\<open>s.i = i0;  for _ in s.while_range(lambda: s.i > -1): body; s.i -= 1\<close> is
  \<open>count_down body (i0, s)\<close>.  Both return the final counter and the final state.
\<close>

function count_up :: "int \<Rightarrow> (int \<Rightarrow> 's \<Rightarrow> 's) \<Rightarrow> int \<times> 's \<Rightarrow> int \<times> 's" where
  "count_up K body (i, s) = (if i < K then count_up K body (i + 1, body i s) else (i, s))"
  by pat_completeness auto
termination
  by (relation "measure (\<lambda>(K, body, i, s). nat (K - i))") auto

declare count_up.simps [simp del]

function count_down :: "(int \<Rightarrow> 's \<Rightarrow> 's) \<Rightarrow> int \<times> 's \<Rightarrow> int \<times> 's" where
  "count_down body (i, s) = (if i > - 1 then count_down body (i - 1, body i s) else (i, s))"
  by pat_completeness auto
termination
  by (relation "measure (\<lambda>(body, i, s). nat (i + 1))") auto

declare count_down.simps [simp del]

subsection \<open>The helpers imported from \<open>integrals_utils\<close>\<close>

text \<open>
  \<open>oei.py\<close> imports its combinatorial helpers and tables from \<open>integrals_utils\<close>, which is
  not among the sources; they are parameters of the embedding.
\<close>

record integrals_utils =
  binomial_prefactor :: "int \<Rightarrow> int \<Rightarrow> int \<Rightarrow> real \<Rightarrow> real \<Rightarrow> real"
  new_binomial_prefactor :: "int \<Rightarrow> int \<Rightarrow> int \<Rightarrow> real list \<Rightarrow> real list \<Rightarrow> real"
  boys :: "int \<Rightarrow> real \<Rightarrow> real"
  factorials :: "real list"
  double_factorials :: "real list"
  am_leading_indices :: "nat list"
  angular_momentum_combinations :: "(int \<times> int \<times> int) list"

text \<open>
  Modelled from the spec: \<open>cartesian_product\<close> of \<open>integrals_utils\<close> is missing; the
  assembler runs over \<^emph>\<open>each ordered pair of primitives drawn from the full primitive
  list\<close>, so the product lists every ordered pair once, the first component varying slowest.
\<close>

definition cartesian_product :: "'a list \<Rightarrow> 'b list \<Rightarrow> ('a \<times> 'b) list" where
  "cartesian_product xs ys = concat (map (\<lambda>x. map (\<lambda>y. (x, y)) ys) xs)"

text \<open>
  The result of \<open>flatten_basis_data\<close> (of \<open>basis_utils\<close>, not among the sources): one
  entry per primitive in each array.  \<open>get_nbf\<close> is the argument \<open>nbf\<close> of \<open>oei_arrays\<close>.
\<close>

record flat_basis =
  coeffs :: "real list"
  exps :: "real list"
  atoms :: "nat list"
  ams :: "nat list"
  indices :: "nat list"
  dims :: "nat list"

subsection \<open>Overlap and kinetic integrals\<close>

text \<open>
  \<open>overlap_component\<close>: the scope holds \<open>s.i\<close> and \<open>s.total\<close>; \<open>overlap_component_scope\<close>
  is the scope when the loop ends, \<open>overlap_component\<close> the returned \<open>s.total\<close>.
\<close>

definition overlap_component_scope ::
  "integrals_utils \<Rightarrow> int \<Rightarrow> int \<Rightarrow> real list \<Rightarrow> real list \<Rightarrow> real \<Rightarrow> int \<times> real" where
  "overlap_component_scope U l1 l2 PAx PBx gamma =
     (let K = 1 + (l1 + l2) div 2
      in count_up K
           (\<lambda>i total. total + new_binomial_prefactor U (2 * i) l1 l2 PAx PBx
                                 * jget (double_factorials U) (2 * i - 1) / (2 * gamma) powi i)
           (0, 0))"

definition overlap_component ::
  "integrals_utils \<Rightarrow> int \<Rightarrow> int \<Rightarrow> real list \<Rightarrow> real list \<Rightarrow> real \<Rightarrow> real" where
  "overlap_component U l1 l2 PAx PBx gamma = snd (overlap_component_scope U l1 l2 PAx PBx gamma)"

definition overlap ::
  "integrals_utils \<Rightarrow> real \<Rightarrow> int \<times> int \<times> int \<Rightarrow> real \<Rightarrow> int \<times> int \<times> int
     \<Rightarrow> real list list \<Rightarrow> real list list \<Rightarrow> real \<Rightarrow> real" where
  "overlap U aa La bb Lb PA PB prefactor =
     (case La of (la, ma, na) \<Rightarrow> case Lb of (lb, mb, nb) \<Rightarrow>
        let gamma = aa + bb;
            prefactor1 = prefactor * (pi / gamma) powr (3 / 2);
            wx = overlap_component U la lb (PA ! 0) (PB ! 0) gamma;
            wy = overlap_component U ma mb (PA ! 1) (PB ! 1) gamma;
            wz = overlap_component U na nb (PA ! 2) (PB ! 2) gamma
        in prefactor1 * wx * wy * wz)"

definition kinetic ::
  "integrals_utils \<Rightarrow> real \<Rightarrow> int \<times> int \<times> int \<Rightarrow> real \<Rightarrow> int \<times> int \<times> int
     \<Rightarrow> real list list \<Rightarrow> real list list \<Rightarrow> real \<Rightarrow> real" where
  "kinetic U aa La bb Lb PA PB prefactor =
     (case La of (la, ma, na) \<Rightarrow> case Lb of (lb, mb, nb) \<Rightarrow>
        let term1 = bb * real_of_int (2 * (lb + mb + nb) + 3) * overlap U aa La bb Lb PA PB prefactor;
            term2 = - 2 * bb\<^sup>2 * (overlap U aa (la, ma, na) bb (lb + 2, mb, nb) PA PB prefactor
                                + overlap U aa (la, ma, na) bb (lb, mb + 2, nb) PA PB prefactor
                                + overlap U aa (la, ma, na) bb (lb, mb, nb + 2) PA PB prefactor);
            term3 = - (1 / 2) * (real_of_int (lb * (lb - 1)) * overlap U aa (la, ma, na) bb (lb - 2, mb, nb) PA PB prefactor
                               + real_of_int (mb * (mb - 1)) * overlap U aa (la, ma, na) bb (lb, mb - 2, nb) PA PB prefactor
                               + real_of_int (nb * (nb - 1)) * overlap U aa (la, ma, na) bb (lb, mb, nb - 2) PA PB prefactor)
        in term1 + term2 + term3)"

subsection \<open>Nuclear attraction integrals\<close>

definition A_term ::
  "integrals_utils \<Rightarrow> int \<Rightarrow> int \<Rightarrow> int \<Rightarrow> int \<Rightarrow> int \<Rightarrow> real \<Rightarrow> real \<Rightarrow> real \<Rightarrow> real \<Rightarrow> real" where
  "A_term U i r u l1 l2 PAx PBx CPx gamma =
     (- 1) powi i * binomial_prefactor U i l1 l2 PAx PBx * (- 1) powi u * jget (factorials U) i
       * CPx powi (i - 2 * r - 2 * u) * (0.25 / gamma) powi (r + u)
       / jget (factorials U) r / jget (factorials U) u / jget (factorials U) (i - 2 * r - 2 * u)"

text \<open>
  The three nested loops of \<open>A_array\<close>, with the statement executed at every \<open>(i, r, u)\<close>
  as a parameter: \<open>s.i\<close> runs from \<open>l1 + l2\<close> down to 0, \<open>s.r\<close> from \<open>s.i // 2\<close> down to 0,
  \<open>s.u\<close> from \<open>(s.i - 2 * s.r) // 2\<close> down to 0.
\<close>

definition A_loops :: "int \<Rightarrow> int \<Rightarrow> (int \<Rightarrow> int \<Rightarrow> int \<Rightarrow> 's \<Rightarrow> 's) \<Rightarrow> 's \<Rightarrow> 's" where
  "A_loops l1 l2 body s0 =
     snd (count_down
            (\<lambda>i s. snd (count_down
                          (\<lambda>r s. snd (count_down (\<lambda>u s. body i r u s) ((i - 2 * r) div 2, s)))
                          (i div 2, s)))
            (l1 + l2, s0))"

definition A_array :: "integrals_utils \<Rightarrow> int \<Rightarrow> int \<Rightarrow> real \<Rightarrow> real \<Rightarrow> real \<Rightarrow> real \<Rightarrow> real list" where
  "A_array U l1 l2 PA PB CP g =
     A_loops l1 l2
       (\<lambda>i r u A.
          let I = i - 2 * r - u;
              term = A_term U i r u l1 l2 PA PB CP g
          in index_add A I term)
       (replicate 7 0)"

text \<open>The triples at which \<open>A_array\<close> executes its loop body, in the order of execution.\<close>

definition A_visits :: "int \<Rightarrow> int \<Rightarrow> (int \<times> int \<times> int) list" where
  "A_visits l1 l2 = A_loops l1 l2 (\<lambda>i r u vs. vs @ [(i, r, u)]) []"

definition vx :: "vec3 \<Rightarrow> real" where "vx v = (case v of (x, y, z) \<Rightarrow> x)"
definition vy :: "vec3 \<Rightarrow> real" where "vy v = (case v of (x, y, z) \<Rightarrow> y)"
definition vz :: "vec3 \<Rightarrow> real" where "vz v = (case v of (x, y, z) \<Rightarrow> z)"

definition potential ::
  "integrals_utils \<Rightarrow> real \<Rightarrow> int \<times> int \<times> int \<Rightarrow> real \<Rightarrow> int \<times> int \<times> int
     \<Rightarrow> vec3 \<Rightarrow> vec3 \<Rightarrow> vec3 \<Rightarrow> real \<Rightarrow> vec3 list \<Rightarrow> real list \<Rightarrow> real" where
  "potential U aa La bb Lb PA PB P prefactor geom charges =
     (case La of (la, ma, na) \<Rightarrow> case Lb of (lb, mb, nb) \<Rightarrow>
        let gamma = aa + bb;
            prefactor1 = prefactor * (- 2 * pi / gamma)
        in fold
             (\<lambda>i val.
                let C = geom ! i;
                    rcp2 = dot (vsub C P) (vsub C P);
                    PC = vsub P C;
                    Ax = A_array U la lb (vx PA) (vx PB) (vx PC) gamma;
                    Ay = A_array U ma mb (vy PA) (vy PB) (vy PC) gamma;
                    Az = A_array U na nb (vz PA) (vz PB) (vz PC) gamma;
                    boys_arg = gamma * rcp2;
                    total =
                      snd (count_up (la + lb + 1)
                             (\<lambda>I t. snd (count_up (ma + mb + 1)
                                            (\<lambda>J t. snd (count_up (na + nb + 1)
                                                           (\<lambda>K t. t + jget Ax I * jget Ay J * jget Az K
                                                                         * boys U (I + J + K) boys_arg)
                                                           (0, t)))
                                            (0, t)))
                             (0, 0))
                in val + jget charges (int i) * prefactor1 * total)
             [0..<length geom] 0)"

subsection \<open>The assembler\<close>

text \<open>
  \<open>PA_pow\<close>, \<open>PB_pow\<close>: row \<open>k\<close> holds the powers \<open>0 .. max_am\<close> of component \<open>k\<close>.
\<close>

definition pow_table :: "vec3 \<Rightarrow> nat \<Rightarrow> real list list" where
  "pow_table v max_am = map (\<lambda>c. map (\<lambda>n. c ^ n) [0..<max_am + 1]) [vx v, vy v, vz v]"

text \<open>
  The statements of \<open>oei_arrays\<close> for one primitive duet \<open>(p1, p2)\<close> up to the component
  loops, and the three values added at component pair \<open>(a, b)\<close> together with their index.
\<close>

definition oei_contribution ::
  "integrals_utils \<Rightarrow> vec3 list \<Rightarrow> flat_basis \<Rightarrow> real list \<Rightarrow> nat \<times> nat \<Rightarrow> int \<Rightarrow> int
     \<Rightarrow> (int \<times> int) \<times> real \<times> real \<times> real" where
  "oei_contribution U geom fb charges duet a b =
     (case duet of (p1, p2) \<Rightarrow>
        let coef = jget (coeffs fb) (int p1) * jget (coeffs fb) (int p2);
            aa = jget (exps fb) (int p1); bb = jget (exps fb) (int p2);
            atom1 = jget (atoms fb) (int p1); atom2 = jget (atoms fb) (int p2);
            A = jget geom (int atom1); B = jget geom (int atom2);
            am1 = jget (ams fb) (int p1); am2 = jget (ams fb) (int p2);
            ld1 = jget (am_leading_indices U) (int am1); ld2 = jget (am_leading_indices U) (int am2);
            gamma = aa + bb;
            prefactor = exp (- aa * bb * dot (vsub A B) (vsub A B) / gamma);
            P = vdiv (vadd (vscale aa A) (vscale bb B)) gamma;
            PA = vsub P A;
            PB = vsub P B;
            max_am = 3;
            PA_pow = pow_table (vsub P A) max_am;
            PB_pow = pow_table (vsub P B) max_am;
            La = jget (angular_momentum_combinations U) (a + int ld1);
            Lb = jget (angular_momentum_combinations U) (b + int ld2);
            i = int (jget (indices fb) (int p1)) + a;
            j = int (jget (indices fb) (int p2)) + b;
            overlap_int = overlap U aa La bb Lb PA_pow PB_pow prefactor * coef;
            kinetic_int = kinetic U aa La bb Lb PA_pow PB_pow prefactor * coef;
            potential_int = potential U aa La bb Lb PA PB P prefactor geom charges * coef
        in ((i, j), overlap_int, kinetic_int, potential_int))"

definition oei_arrays ::
  "integrals_utils \<Rightarrow> vec3 list \<Rightarrow> flat_basis \<Rightarrow> nat \<Rightarrow> real list
     \<Rightarrow> real list list \<times> real list list \<times> real list list" where
  "oei_arrays U geom fb nbf charges =
     (let nprim = length (coeffs fb);
          primitive_duets = cartesian_product [0..<nprim] [0..<nprim];
          S0 = replicate nbf (replicate nbf 0);
          T0 = replicate nbf (replicate nbf 0);
          V0 = replicate nbf (replicate nbf 0)
      in fold
           (\<lambda>prim_duet STV.
              let duet = primitive_duets ! prim_duet;
                  p1 = fst duet; p2 = snd duet
              in snd (count_up (int (jget (dims fb) (int p1)))
                        (\<lambda>a STV.
                           snd (count_up (int (jget (dims fb) (int p2)))
                                  (\<lambda>b (S, T, V).
                                     case oei_contribution U geom fb charges duet a b of
                                       (ij, overlap_int, kinetic_int, potential_int) \<Rightarrow>
                                         (index_add2 S ij overlap_int,
                                          index_add2 T ij kinetic_int,
                                          index_add2 V ij potential_int))
                                  (0, STV)))
                        (0, STV)))
           [0..<length primitive_duets] (S0, T0, V0))"

subsection \<open>The helpers as the specification describes them\<close>

text \<open>
  Modelled from the spec: \<open>binomial_prefactor\<close> of \<open>integrals_utils\<close> is missing.  The
  spec gives it as the sum over \<open>t\<close> of
  \<open>C(l1,t) C(l2,i-t) disp1^(l1-t) disp2^(i-t-l2+t)\<close> restricted to \<open>0 \<le> i-t \<le> l2\<close> and
  \<open>0 \<le> t \<le> l1\<close>; the exponents are written here as the spec writes them.
\<close>

definition binomial_prefactor_spec :: "int \<Rightarrow> int \<Rightarrow> int \<Rightarrow> real \<Rightarrow> real \<Rightarrow> real" where
  "binomial_prefactor_spec i l1 l2 disp1 disp2 =
     (\<Sum>t \<leftarrow> [0..l1].
        if 0 \<le> i - t \<and> i - t \<le> l2
        then real (nat l1 choose nat t) * real (nat l2 choose nat (i - t))
               * disp1 powi (l1 - t) * disp2 powi (i - t - l2 + t)
        else 0)"

text \<open>
  Modelled from the spec: \<open>new_binomial_prefactor\<close> of \<open>integrals_utils\<close> is missing.
  \<open>oei_arrays\<close> passes it the rows of \<open>PA_pow\<close> and \<open>PB_pow\<close>, so the powers of the
  displacements are read from these rows.
\<close>

definition new_binomial_prefactor_spec :: "int \<Rightarrow> int \<Rightarrow> int \<Rightarrow> real list \<Rightarrow> real list \<Rightarrow> real" where
  "new_binomial_prefactor_spec i l1 l2 PAx PBx =
     (\<Sum>t \<leftarrow> [0..l1].
        if 0 \<le> i - t \<and> i - t \<le> l2
        then real (nat l1 choose nat t) * real (nat l2 choose nat (i - t))
               * jget PAx (l1 - t) * jget PBx (i - t - l2 + t)
        else 0)"

text \<open>
  Modelled from the spec: \<open>boys\<close> of \<open>integrals_utils\<close> is missing.  The spec's contract is
  \<open>F n x\<close>, the integral of \<open>t^(2n) exp (- x t\<^sup>2)\<close> over \<open>[0,1]\<close>, given here by its power
  series in \<open>x\<close>.
\<close>

definition boys_spec :: "int \<Rightarrow> real \<Rightarrow> real" where
  "boys_spec n x = (\<Sum>k. (- x) ^ k / (fact k * (2 * real_of_int n + 2 * real k + 1)))"

text \<open>
  Modelled from the spec: the double factorial \<open>n!! = n (n - 2) (n - 4) \<dots>\<close>, the product
  running down to 1 or 2; it is the empty product 1 for \<open>n \<le> 0\<close>, so \<open>(- 1)!! = 0!! = 1\<close>.
\<close>

function double_factorial :: "int \<Rightarrow> real" where
  "double_factorial n = (if n \<le> 1 then 1 else real_of_int n * double_factorial (n - 2))"
  by pat_completeness auto

termination
  by (relation "measure nat") auto

declare double_factorial.simps [simp del]

text \<open>
  Modelled from the spec: the tables of \<open>integrals_utils\<close> are missing.  Factorials and
  double factorials up to \<open>2 L_max + 1 = 7\<close>; all triples \<open>(l,m,n)\<close> for the total angular
  momenta \<open>0 .. L_max = 3\<close>, descending in \<open>x\<close> then \<open>y\<close>; the offset at which each block
  begins.  \<open>overlap_component\<close> reads the double-factorial table at \<open>2 i - 1\<close>, which is
  \<open>- 1\<close> for \<open>i = 0\<close> and then denotes the last entry: the table lists \<open>0!! \<dots> 7!!\<close> and
  ends with \<open>(- 1)!! = 1\<close>.
\<close>

definition spec_utils :: integrals_utils where
  "spec_utils =
     \<lparr> binomial_prefactor = binomial_prefactor_spec,
       new_binomial_prefactor = new_binomial_prefactor_spec,
       boys = boys_spec,
       factorials = [1, 1, 2, 6, 24, 120, 720, 5040],
       double_factorials = [1, 1, 2, 3, 8, 15, 48, 105, 1],
       am_leading_indices = [0, 1, 4, 10],
       angular_momentum_combinations =
         [(0, 0, 0),
          (1, 0, 0), (0, 1, 0), (0, 0, 1),
          (2, 0, 0), (1, 1, 0), (1, 0, 1), (0, 2, 0), (0, 1, 1), (0, 0, 2),
          (3, 0, 0), (2, 1, 0), (2, 0, 1), (1, 2, 0), (1, 1, 1), (1, 0, 2),
          (0, 3, 0), (0, 2, 1), (0, 1, 2), (0, 0, 3)] \<rparr>"

section \<open>Properties\<close>

lemma np_transpose_0312: "np_transpose [0, 3, 1, 2] t = (\<lambda>idx. t [idx ! 0, idx ! 2, idx ! 3, idx ! 1])"
  by (rule ext) (simp add: np_transpose_def upt_rec numeral_eq_Suc)
lemma np_transpose_3012: "np_transpose [3, 0, 1, 2] t = (\<lambda>idx. t [idx ! 1, idx ! 2, idx ! 3, idx ! 0])"
  by (rule ext) (simp add: np_transpose_def upt_rec numeral_eq_Suc)
lemma np_transpose_2301: "np_transpose [2, 3, 0, 1] t = (\<lambda>idx. t [idx ! 2, idx ! 3, idx ! 0, idx ! 1])"
  by (rule ext) (simp add: np_transpose_def upt_rec numeral_eq_Suc)
lemma np_transpose_3201: "np_transpose [3, 2, 0, 1] t = (\<lambda>idx. t [idx ! 2, idx ! 3, idx ! 1, idx ! 0])"
  by (rule ext) (simp add: np_transpose_def upt_rec numeral_eq_Suc)
lemma np_transpose_10: "np_transpose [1, 0] t = (\<lambda>idx. t [idx ! 1, idx ! 0])"
  by (rule ext) (simp add: np_transpose_def upt_rec numeral_eq_Suc)
lemma np_transpose_210: "np_transpose [2, 1, 0] t = (\<lambda>idx. t [idx ! 2, idx ! 1, idx ! 0])"
  by (rule ext) (simp add: np_transpose_def upt_rec numeral_eq_Suc)

lemmas np_transpose_simps = np_transpose_0312 np_transpose_3012 np_transpose_2301
  np_transpose_3201 np_transpose_10 np_transpose_210

lemma dot_vsub_sym: "dot (vsub a b) (vsub a b) = dot (vsub b a) (vsub b a)"
  by (cases a, cases b) (simp add: dot_def vsub_def algebra_simps)

lemma vscale_inverse: "vscale (1 / s) v = vdiv v s"
  by (cases v) (simp add: vscale_def vdiv_def)

lemma vadd_commute: "vadd a b = vadd b a"
  by (cases a, cases b) (simp add: vadd_def)

lemma pi_powr_five_halves: "pi powr (5 / 2) = pi\<^sup>2 * sqrt pi"
proof -
  have "pi powr (5 / 2) = pi powr (2 + 1 / 2)" by simp
  also have "\<dots> = pi powr 2 * pi powr (1 / 2)" by (rule powr_add)
  also have "\<dots> = pi\<^sup>2 * sqrt pi" by (simp add: powr_half_sqrt)
  finally show ?thesis .
qed

text \<open>The value common to the naive and the vectorised kernels, with the Boys value abstracted.\<close>

lemma eri_unfold:
  "eri aa bb cc dd A B C D =
     torchboys 0 (dot (vsub (fst (gp aa bb A B)) (fst (gp cc dd C D))) (vsub (fst (gp aa bb A B)) (fst (gp cc dd C D)))
                    / (4 * (1 / (4 * (aa + bb)) + 1 / (4 * (cc + dd)))))
     * normalize_s aa * normalize_s bb * normalize_s cc * normalize_s dd
     * snd (gp aa bb A B) * snd (gp cc dd C D) * 2 * pi\<^sup>2 / ((aa + bb) * (cc + dd))
     * sqrt (pi / (aa + bb + (cc + dd)))"
  by (simp only: eri_def gp_def Let_def fst_conv snd_conv)

lemma torchboys_zero: "torchboys nu 0 = 1 / (2 * nu + 1)"
  by (simp add: torchboys_def torchboys_branch_def)

lemma repeat_centers_length: "length (repeat_centers geom) = 20 * length geom"
  by (induction geom) (simp_all add: repeat_centers_def)

lemma repeat_centers_nth: "i < 20 * length geom \<Longrightarrow> repeat_centers geom ! i = geom ! (i div 20)"
proof (induction geom arbitrary: i)
  case Nil
  then show ?case by simp
next
  case (Cons g gs)
  have rc: "repeat_centers (g # gs) = replicate 20 g @ repeat_centers gs"
    by (simp add: repeat_centers_def)
  show ?case
  proof (cases "i < 20")
    case True
    then show ?thesis by (simp add: rc nth_append)
  next
    case False
    then have i20: "20 \<le> i" by simp
    then have d: "i div 20 = Suc ((i - 20) div 20)"
      by (simp add: div_if)
    from Cons.prems i20 have "i - 20 < 20 * length gs" by simp
    then have "repeat_centers gs ! (i - 20) = gs ! ((i - 20) div 20)"
      by (rule Cons.IH)
    with False show ?thesis by (simp add: rc nth_append d)
  qed
qed

lemma tei_setup_elem:
  assumes len: "length basis = 20 * length geom"
    and "i < length basis" "j < length basis" "k < length basis" "l < length basis"
  shows "case tei_setup geom basis n of Inl e \<Rightarrow> False | Inr (G, ba) \<Rightarrow>
          G [i, j, k, l] =
            exp (dot (vsub (repeat_centers geom ! j) (repeat_centers geom ! i))
                     (vsub (repeat_centers geom ! j) (repeat_centers geom ! i))
                 * - (basis ! j * basis ! i) / (basis ! j + basis ! i))
            * exp (dot (vsub (repeat_centers geom ! l) (repeat_centers geom ! k))
                       (vsub (repeat_centers geom ! l) (repeat_centers geom ! k))
                   * - (basis ! l * basis ! k) / (basis ! l + basis ! k))
            * (normalize_s (basis ! i) * normalize_s (basis ! j) * normalize_s (basis ! k) * normalize_s (basis ! l))
            * 2 * pi\<^sup>2 / ((basis ! j + basis ! i) * (basis ! l + basis ! k))
            * sqrt (pi / ((basis ! j + basis ! i) + (basis ! l + basis ! k)))
        \<and> ba [i, j, k, l] =
            dot (vsub (vscale (1 / (basis ! j + basis ! i))
                         (vadd (vscale (basis ! j) (repeat_centers geom ! j)) (vscale (basis ! i) (repeat_centers geom ! i))))
                      (vscale (1 / (basis ! l + basis ! k))
                         (vadd (vscale (basis ! l) (repeat_centers geom ! l)) (vscale (basis ! k) (repeat_centers geom ! k)))))
                (vsub (vscale (1 / (basis ! j + basis ! i))
                         (vadd (vscale (basis ! j) (repeat_centers geom ! j)) (vscale (basis ! i) (repeat_centers geom ! i))))
                      (vscale (1 / (basis ! l + basis ! k))
                         (vadd (vscale (basis ! l) (repeat_centers geom ! l)) (vscale (basis ! k) (repeat_centers geom ! k)))))
            / (4 * (1 / (4 * (basis ! j + basis ! i)) + 1 / (4 * (basis ! l + basis ! k))))"
proof -
  have n1: "length basis \<noteq> Suc 0" "length (repeat_centers geom) \<noteq> Suc 0"
    using len by (auto simp: repeat_centers_length)
  have lc: "length (repeat_centers geom) = length basis"
    using len by (simp add: repeat_centers_length)
  show ?thesis
    unfolding tei_setup_def Let_def np_transpose_simps
    using assms(2-) by (simp add: lc n1 broadcast_to_def normalize_s_def)
qed



lemma tei_setup_gp_form:
  assumes len: "length basis = 20 * length geom"
    and b: "i < length basis" "j < length basis" "k < length basis" "l < length basis"
    and e: "aa = basis ! i" "bb = basis ! j" "cc = basis ! k" "dd = basis ! l"
    and c: "A = geom ! (i div 20)" "B = geom ! (j div 20)" "C = geom ! (k div 20)" "D = geom ! (l div 20)"
  shows "\<exists>G ba. tei_setup geom basis n = Inr (G, ba)
           \<and> G [i, j, k, l] = snd (gp aa bb A B) * snd (gp cc dd C D)
                * (normalize_s aa * normalize_s bb * normalize_s cc * normalize_s dd)
                * 2 * pi\<^sup>2 / ((aa + bb) * (cc + dd)) * sqrt (pi / (aa + bb + (cc + dd)))
           \<and> ba [i, j, k, l] =
                dot (vsub (fst (gp aa bb A B)) (fst (gp cc dd C D))) (vsub (fst (gp aa bb A B)) (fst (gp cc dd C D)))
                / (4 * (1 / (4 * (aa + bb)) + 1 / (4 * (cc + dd))))"
proof -
  have cen: "repeat_centers geom ! i = A" "repeat_centers geom ! j = B"
    "repeat_centers geom ! k = C" "repeat_centers geom ! l = D"
    using b len by (simp_all add: c repeat_centers_nth)
  have Rp: "vscale (1 / (bb + aa)) (vadd (vscale bb B) (vscale aa A)) = fst (gp aa bb A B)"
    by (simp add: gp_def Let_def vscale_inverse vadd_commute add.commute)
  have Rq: "vscale (1 / (dd + cc)) (vadd (vscale dd D) (vscale cc C)) = fst (gp cc dd C D)"
    by (simp add: gp_def Let_def vscale_inverse vadd_commute add.commute)
  have c1: "exp (dot (vsub B A) (vsub B A) * - (bb * aa) / (bb + aa)) = snd (gp aa bb A B)"
    by (simp add: gp_def Let_def dot_vsub_sym[of B A] mult.commute add.commute)
  have c2: "exp (dot (vsub D C) (vsub D C) * - (dd * cc) / (dd + cc)) = snd (gp cc dd C D)"
    by (simp add: gp_def Let_def dot_vsub_sym[of D C] mult.commute add.commute)
  from tei_setup_elem[OF len b, of n]
  obtain G ba where r: "tei_setup geom basis n = Inr (G, ba)"
    and G: "G [i, j, k, l] = snd (gp aa bb A B) * snd (gp cc dd C D)
              * (normalize_s aa * normalize_s bb * normalize_s cc * normalize_s dd)
              * 2 * pi\<^sup>2 / ((bb + aa) * (dd + cc)) * sqrt (pi / ((bb + aa) + (dd + cc)))"
    and ba: "ba [i, j, k, l] =
               dot (vsub (fst (gp aa bb A B)) (fst (gp cc dd C D))) (vsub (fst (gp aa bb A B)) (fst (gp cc dd C D)))
               / (4 * (1 / (4 * (bb + aa)) + 1 / (4 * (dd + cc))))"
    unfolding cen e[symmetric] Rp Rq c1 c2
    by (auto split: sum.splits prod.splits)
  have ba': "ba [i, j, k, l] =
               dot (vsub (fst (gp aa bb A B)) (fst (gp cc dd C D))) (vsub (fst (gp aa bb A B)) (fst (gp cc dd C D)))
               / (4 * (1 / (4 * (aa + bb)) + 1 / (4 * (cc + dd))))"
    unfolding ba by (simp only: add.commute)
  have G': "G [i, j, k, l] = snd (gp aa bb A B) * snd (gp cc dd C D)
              * (normalize_s aa * normalize_s bb * normalize_s cc * normalize_s dd)
              * 2 * pi\<^sup>2 / ((aa + bb) * (cc + dd)) * sqrt (pi / (aa + bb + (cc + dd)))"
    unfolding G by (simp only: add.commute)
  from r G' ba' show ?thesis by blast
qed

lemma tei_setup_symmetric:
  assumes len: "length basis = 20 * length geom"
    and b: "i < length basis" "j < length basis" "k < length basis" "l < length basis"
  shows "\<exists>G ba. tei_setup geom basis n = Inr (G, ba) \<and> G [i, j, k, l] = G [k, l, i, j]
           \<and> ba [i, j, k, l] = ba [k, l, i, j]"
proof -
  from tei_setup_elem[OF len b, of n] tei_setup_elem[OF len b(3) b(4) b(1) b(2), of n]
  obtain G ba where r: "tei_setup geom basis n = Inr (G, ba)"
    and G: "G [i, j, k, l] = G [k, l, i, j]"
    and ba1: "ba [i, j, k, l] =
            dot (vsub (vscale (1 / (basis ! j + basis ! i))
                         (vadd (vscale (basis ! j) (repeat_centers geom ! j)) (vscale (basis ! i) (repeat_centers geom ! i))))
                      (vscale (1 / (basis ! l + basis ! k))
                         (vadd (vscale (basis ! l) (repeat_centers geom ! l)) (vscale (basis ! k) (repeat_centers geom ! k)))))
                (vsub (vscale (1 / (basis ! j + basis ! i))
                         (vadd (vscale (basis ! j) (repeat_centers geom ! j)) (vscale (basis ! i) (repeat_centers geom ! i))))
                      (vscale (1 / (basis ! l + basis ! k))
                         (vadd (vscale (basis ! l) (repeat_centers geom ! l)) (vscale (basis ! k) (repeat_centers geom ! k)))))
            / (4 * (1 / (4 * (basis ! j + basis ! i)) + 1 / (4 * (basis ! l + basis ! k))))"
    and ba2: "ba [k, l, i, j] =
            dot (vsub (vscale (1 / (basis ! l + basis ! k))
                         (vadd (vscale (basis ! l) (repeat_centers geom ! l)) (vscale (basis ! k) (repeat_centers geom ! k))))
                      (vscale (1 / (basis ! j + basis ! i))
                         (vadd (vscale (basis ! j) (repeat_centers geom ! j)) (vscale (basis ! i) (repeat_centers geom ! i)))))
                (vsub (vscale (1 / (basis ! l + basis ! k))
                         (vadd (vscale (basis ! l) (repeat_centers geom ! l)) (vscale (basis ! k) (repeat_centers geom ! k))))
                      (vscale (1 / (basis ! j + basis ! i))
                         (vadd (vscale (basis ! j) (repeat_centers geom ! j)) (vscale (basis ! i) (repeat_centers geom ! i)))))
            / (4 * (1 / (4 * (basis ! l + basis ! k)) + 1 / (4 * (basis ! j + basis ! i))))"
    by (cases "tei_setup geom basis n") (auto simp: mult.commute add.commute)
  have "ba [i, j, k, l] = ba [k, l, i, j]"
    unfolding ba1 ba2 by (subst dot_vsub_sym) (simp only: add.commute)
  with r G show ?thesis by blast
qed

lemma oei_setup_symmetric:
  assumes len: "length basis = 20 * length geom"
    and b: "i < length basis" "j < length basis"
  shows "\<exists>S T Vtmp ba. oei_setup geom basis n q = Inr (S, T, Vtmp, ba)
           \<and> S [i, j] = S [j, i] \<and> T [i, j] = T [j, i]"
proof -
  have n1: "length basis \<noteq> Suc 0" "length (repeat_centers geom) \<noteq> Suc 0"
    using len by (auto simp: repeat_centers_length)
  have lc: "length (repeat_centers geom) = length basis"
    using len by (simp add: repeat_centers_length)
  show ?thesis
    unfolding oei_setup_def Let_def np_transpose_simps
    using b by (simp add: lc n1 broadcast_to_def dot_vsub_sym[of "repeat_centers geom ! j"] mult.commute add.commute)
qed




subsection \<open>Counting loops as folds\<close>

lemma count_up_fold: "count_up K body (i, s) = (max i K, fold body [i..K - 1] s)"
proof (induction K body "(i, s)" arbitrary: i s rule: count_up.induct)
  case (1 K body i s)
  show ?case
  proof (cases "i < K")
    case True
    then have u: "[i..K - 1] = i # [i + 1..K - 1]"
      by (simp add: upto_rec1)
    from True "1" show ?thesis
      by (simp add: u max_def count_up.simps[of K body i s])
  next
    case False
    then show ?thesis by (simp add: max_def count_up.simps[of K body i s])
  qed
qed

lemma count_down_fold: "count_down body (i, s) = (min i (- 1), fold body (rev [0..i]) s)"
proof (induction body "(i, s)" arbitrary: i s rule: count_down.induct)
  case (1 body i s)
  show ?case
  proof (cases "i > - 1")
    case True
    then have u: "[0..i] = [0..i - 1] @ [i]"
      by (simp add: upto_rec2)
    from True "1" show ?thesis
      by (simp add: u min_def count_down.simps[of body i s])
  next
    case False
    then show ?thesis by (simp add: min_def count_down.simps[of body i s])
  qed
qed

lemma fold_plus_sum_list: "fold (\<lambda>x (t :: real). t + f x) xs t0 = t0 + sum_list (map f xs)"
  by (induction xs arbitrary: t0) simp_all

subsection \<open>Overlap components\<close>

lemma floor_half: "\<lfloor>real_of_int n / 2\<rfloor> = n div 2"
  using floor_divide_of_int_eq[of n 2, where ?'a = real] by simp



lemma overlap_component_scope_eq:
  "overlap_component_scope U l1 l2 PAx PBx gamma =
     (max 0 (1 + (l1 + l2) div 2),
      \<Sum>i \<leftarrow> [0..(l1 + l2) div 2].
        new_binomial_prefactor U (2 * i) l1 l2 PAx PBx * jget (double_factorials U) (2 * i - 1)
          / (2 * gamma) powi i)"
  by (simp add: overlap_component_scope_def Let_def count_up_fold fold_plus_sum_list)


subsection \<open>The loops of \<open>A_array\<close>\<close>

lemma A_loops_fold:
  "A_loops l1 l2 body s0 =
     fold (\<lambda>i. fold (\<lambda>r. fold (\<lambda>u. body i r u) (rev [0..(i - 2 * r) div 2])) (rev [0..i div 2]))
       (rev [0..l1 + l2]) s0"
  by (simp add: A_loops_def count_down_fold)

lemma fold_append_concat: "fold (\<lambda>x vs. vs @ f x) xs vs0 = vs0 @ concat (map f xs)"
  by (induction xs arbitrary: vs0) simp_all

lemma fold_fold_append_concat:
  "fold (\<lambda>x. fold (\<lambda>y vs. vs @ f x y) (ys x)) xs vs0 = vs0 @ concat (map (\<lambda>x. concat (map (f x) (ys x))) xs)"
  by (induction xs arbitrary: vs0) (simp_all add: fold_append_concat)

lemma A_visits_eq:
  "A_visits l1 l2 =
     concat (map (\<lambda>i. concat (map (\<lambda>r. map (\<lambda>u. (i, r, u)) (rev [0..(i - 2 * r) div 2])) (rev [0..i div 2])))
               (rev [0..l1 + l2]))"
proof -
  have inner: "fold (\<lambda>u vs. vs @ [(i, r, u)]) us vs0 = vs0 @ map (\<lambda>u. (i, r, u)) us"
    for i r :: int and us vs0
    by (induction us arbitrary: vs0) simp_all
  have mid: "fold (\<lambda>r vs. vs @ map (\<lambda>u. (i, r, u)) (us r)) rs vs0
             = vs0 @ concat (map (\<lambda>r. map (\<lambda>u. (i, r, u)) (us r)) rs)"
    for i :: int and us rs vs0
    by (rule fold_append_concat)
  show ?thesis
    unfolding A_visits_def A_loops_fold inner mid
    by (simp add: fold_append_concat)
qed

lemma fold_concat_fold: "fold f (concat xss) = fold (fold f) xss"
proof
  show "fold f (concat xss) s = fold (fold f) xss s" for s
    by (induction xss arbitrary: s) simp_all
qed

lemma A_loops_visits:
  "A_loops l1 l2 body s0 = fold (\<lambda>(i, r, u). body i r u) (A_visits l1 l2) s0"
  unfolding A_visits_eq A_loops_fold
  by (simp add: fold_concat_fold fold_map comp_def)

lemma A_visits_set:
  "set (A_visits l1 l2) =
     {(i, r, u). 0 \<le> i \<and> i \<le> l1 + l2 \<and> 0 \<le> r \<and> r \<le> i div 2 \<and> 0 \<le> u \<and> u \<le> (i - 2 * r) div 2}"
proof -
  have "(i, r, u) \<in> set (A_visits l1 l2)
        \<longleftrightarrow> 0 \<le> i \<and> i \<le> l1 + l2 \<and> 0 \<le> r \<and> r \<le> i div 2 \<and> 0 \<le> u \<and> u \<le> (i - 2 * r) div 2"
    for i r u
    unfolding A_visits_eq by (simp add: image_iff)
  then show ?thesis by auto
qed

lemma index_add_length: "length (index_add A i v) = length A"
  by (simp add: index_add_def Let_def)

lemma A_array_length: "length (A_array U l1 l2 PA PB CP g) = 7"
proof -
  have "length (fold (\<lambda>(i, r, u) A. index_add A (f i r u) (t i r u)) vs A0) = length A0"
    for f t and vs :: "(int \<times> int \<times> int) list" and A0
    by (induction vs arbitrary: A0) (simp_all add: index_add_length split: prod.splits)
  then show ?thesis
    by (simp add: A_array_def A_loops_visits Let_def)
qed

subsection \<open>The assembler as one fold over its contributions\<close>

lemma index_add_nth:
  "0 \<le> k \<Longrightarrow> j < length A \<Longrightarrow> index_add A k v ! j = (if k = int j then A ! j + v else A ! j)"
  by (auto simp: index_add_def Let_def nth_list_update)

lemma index_add2_length: "length (index_add2 S ij v) = length S"
  by (cases ij) (simp add: index_add2_def Let_def)

lemma index_add2_row_length: "i < length S \<Longrightarrow> length (index_add2 S ij v ! i) = length (S ! i)"
  by (cases ij) (auto simp: index_add2_def Let_def nth_list_update index_add_length)

lemma index_add2_nth:
  assumes "0 \<le> i'" "0 \<le> j'" "i < length S" "j < length (S ! i)"
  shows "index_add2 S (i', j') v ! i ! j = (if i' = int i \<and> j' = int j then S ! i ! j + v else S ! i ! j)"
  using assms by (auto simp: index_add2_def Let_def nth_list_update index_add_nth)

lemma fold_index_add2_nth:
  assumes "\<forall>c \<in> set cs. 0 \<le> fst (idx c) \<and> 0 \<le> snd (idx c)" "i < length S" "j < length (S ! i)"
  shows "fold (\<lambda>c S. index_add2 S (idx c) (val c)) cs S ! i ! j
         = S ! i ! j + sum_list (map (\<lambda>c. if idx c = (int i, int j) then val c else 0) cs)"
  using assms
proof (induction cs arbitrary: S)
  case Nil
  then show ?case by simp
next
  case (Cons c cs)
  obtain i' j' where ij: "idx c = (i', j')" by (cases "idx c")
  from Cons.prems ij have nn: "0 \<le> i'" "0 \<le> j'" by auto
  have len: "i < length (index_add2 S (idx c) (val c))"
    "j < length (index_add2 S (idx c) (val c) ! i)"
    using Cons.prems by (simp_all add: index_add2_length index_add2_row_length)
  from Cons.prems have rest: "\<forall>c \<in> set cs. 0 \<le> fst (idx c) \<and> 0 \<le> snd (idx c)" by simp
  have "fold (\<lambda>c S. index_add2 S (idx c) (val c)) (c # cs) S ! i ! j
        = index_add2 S (idx c) (val c) ! i ! j
          + sum_list (map (\<lambda>c. if idx c = (int i, int j) then val c else 0) cs)"
    using Cons.IH[OF rest len] by simp
  also have "index_add2 S (idx c) (val c) ! i ! j
             = (if idx c = (int i, int j) then S ! i ! j + val c else S ! i ! j)"
    unfolding ij using index_add2_nth[OF nn Cons.prems(2,3)] by simp
  finally show ?case by simp
qed

lemma fold_triple:
  "fold (\<lambda>c (S, T, V). (f c S, g c T, h c V)) cs (S, T, V) = (fold f cs S, fold g cs T, fold h cs V)"
  by (induction cs arbitrary: S T V) simp_all

lemma fold_nth_upt: "fold (\<lambda>k. F (ds ! k)) [0..<length ds] = fold F ds"
proof -
  have "fold (\<lambda>k. F (ds ! k)) [0..<length ds] = fold F (map (nth ds) [0..<length ds])"
    by (simp add: fold_map comp_def)
  then show ?thesis by (simp add: map_nth)
qed

lemma oei_arrays_fold:
  "oei_arrays U geom fb nbf charges =
     fold (\<lambda>c (S, T, V). (index_add2 S (fst c) (fst (snd c)),
                           index_add2 T (fst c) (fst (snd (snd c))),
                           index_add2 V (fst c) (snd (snd (snd c)))))
       (concat (map (\<lambda>duet.
                  concat (map (\<lambda>a. map (\<lambda>b. oei_contribution U geom fb charges duet a b)
                                      [0..int (jget (dims fb) (int (snd duet))) - 1])
                            [0..int (jget (dims fb) (int (fst duet))) - 1]))
               (cartesian_product [0..<length (coeffs fb)] [0..<length (coeffs fb)])))
       (replicate nbf (replicate nbf 0), replicate nbf (replicate nbf 0), replicate nbf (replicate nbf 0))"
proof -
  define stepf :: "(int \<times> int) \<times> real \<times> real \<times> real \<Rightarrow>
      real list list \<times> real list list \<times> real list list \<Rightarrow> real list list \<times> real list list \<times> real list list"
    where "stepf = (\<lambda>c (S, T, V). (index_add2 S (fst c) (fst (snd c)),
                           index_add2 T (fst c) (fst (snd (snd c))),
                           index_add2 V (fst c) (snd (snd (snd c)))))"
  have s: "(\<lambda>(S, T, V). case c of (ij, overlap_int, kinetic_int, potential_int) \<Rightarrow>
                (index_add2 S ij overlap_int, index_add2 T ij kinetic_int, index_add2 V ij potential_int))
           = stepf c" for c
    by (cases c) (auto simp: stepf_def)
  show ?thesis
    unfolding oei_arrays_def Let_def count_up_fold snd_conv s stepf_def[symmetric]
    by (simp add: fold_nth_upt[where F = "\<lambda>d. fold (\<lambda>a. fold (\<lambda>b. stepf (oei_contribution U geom fb charges d a b))
          [0..int (jget (dims fb) (int (snd d))) - 1]) [0..int (jget (dims fb) (int (fst d))) - 1]"]
        fold_concat_fold fold_map comp_def)
qed

lemma oei_contribution_index:
  "fst (oei_contribution U geom fb charges (p1, p2) a b) =
     (int (jget (indices fb) (int p1)) + a, int (jget (indices fb) (int p2)) + b)"
  by (simp add: oei_contribution_def Let_def)

lemma sum_list_map_concat:
  "sum_list (map f (concat xss)) = sum_list (map (\<lambda>xs. sum_list (map f xs)) xss)"
  by (induction xss) simp_all

lemma cartesian_product_set: "set (cartesian_product xs ys) = set xs \<times> set ys"
  by (auto simp: cartesian_product_def)

lemma cartesian_product_length: "length (cartesian_product xs ys) = length xs * length ys"
  by (induction xs) (simp_all add: cartesian_product_def)

lemma cartesian_product_distinct:
  "distinct xs \<Longrightarrow> distinct ys \<Longrightarrow> distinct (cartesian_product xs ys)"
  by (induction xs) (auto simp: cartesian_product_def distinct_map inj_on_def)

lemma oei_arrays_entry_aux:
  assumes "i < nbf" "j < nbf"
  shows "fold (\<lambda>c S. index_add2 S (fst c) (val c))
           (concat (map (\<lambda>duet.
                  concat (map (\<lambda>a. map (\<lambda>b. oei_contribution U geom fb charges duet a b)
                                      [0..int (jget (dims fb) (int (snd duet))) - 1])
                            [0..int (jget (dims fb) (int (fst duet))) - 1]))
               (cartesian_product [0..<length (coeffs fb)] [0..<length (coeffs fb)])))
           (replicate nbf (replicate nbf 0)) ! i ! j
         = (\<Sum>duet \<leftarrow> cartesian_product [0..<length (coeffs fb)] [0..<length (coeffs fb)].
              \<Sum>a \<leftarrow> [0..int (jget (dims fb) (int (fst duet))) - 1].
                \<Sum>b \<leftarrow> [0..int (jget (dims fb) (int (snd duet))) - 1].
                  if fst (oei_contribution U geom fb charges duet a b) = (int i, int j)
                  then val (oei_contribution U geom fb charges duet a b) else 0)"
proof -
  let ?cs = "concat (map (\<lambda>duet.
                  concat (map (\<lambda>a. map (\<lambda>b. oei_contribution U geom fb charges duet a b)
                                      [0..int (jget (dims fb) (int (snd duet))) - 1])
                            [0..int (jget (dims fb) (int (fst duet))) - 1]))
               (cartesian_product [0..<length (coeffs fb)] [0..<length (coeffs fb)]))"
  have nn: "\<forall>c \<in> set ?cs. 0 \<le> fst (fst c) \<and> 0 \<le> snd (fst c)"
    by (auto simp: oei_contribution_index)
  have "fold (\<lambda>c S. index_add2 S (fst c) (val c)) ?cs (replicate nbf (replicate nbf 0)) ! i ! j
        = replicate nbf (replicate nbf 0) ! i ! j
          + sum_list (map (\<lambda>c. if fst c = (int i, int j) then val c else 0) ?cs)"
    by (rule fold_index_add2_nth[OF nn]) (use assms in simp_all)
  also have "\<dots> = sum_list (map (\<lambda>c. if fst c = (int i, int j) then val c else 0) ?cs)"
    using assms by simp
  finally show ?thesis
    by (simp add: sum_list_map_concat comp_def)
qed

subsection \<open>Angular momenta beyond the tables\<close>

lemma jget_map: "xs \<noteq> [] \<Longrightarrow> jget (map f xs) i = f (jget xs i)"
proof -
  assume "xs \<noteq> []"
  then have "nat (max 0 (min (if i < 0 then i + int (length xs) else i) (int (length xs) - 1))) < length xs"
    by (cases xs) auto
  then show ?thesis
    by (simp add: jget_def Let_def)
qed

lemma jget_clamp4:
  assumes "length tbl = 4"
  shows "jget tbl (int (min 3 n)) = jget tbl (int n)"
proof (cases "n < 3")
  case True
  then show ?thesis by (simp add: min_def)
next
  case False
  then have m: "min 3 n = 3" and c: "min (int n) 3 = 3" by simp_all
  have "jget tbl (int n) = tbl ! 3"
    using assms c by (simp add: jget_def Let_def)
  moreover have "jget tbl (int (min 3 n)) = tbl ! 3"
    unfolding m using assms by (simp add: jget_def Let_def)
  ultimately show ?thesis by simp
qed

lemma oei_contribution_am_clamped:
  assumes "length (am_leading_indices U) = 4"
  shows "oei_contribution U geom (fb\<lparr>ams := map (min 3) (ams fb)\<rparr>) charges duet a b
         = oei_contribution U geom fb charges duet a b"
proof (cases "ams fb = []")
  case True
  then show ?thesis by (simp add: oei_contribution_def)
next
  case False
  then show ?thesis
    by (cases duet) (simp add: oei_contribution_def Let_def jget_map jget_clamp4[OF assms])
qed

lemma fold_index_add2_length: "length (fold (\<lambda>c S. index_add2 S (idx c) (val c)) cs S) = length S"
  by (induction cs arbitrary: S) (simp_all add: index_add2_length)

lemma oei_arrays_lengths:
  "length (fst (oei_arrays U geom fb nbf charges)) = nbf
   \<and> length (fst (snd (oei_arrays U geom fb nbf charges))) = nbf
   \<and> length (snd (snd (oei_arrays U geom fb nbf charges))) = nbf"
  unfolding oei_arrays_fold fold_triple fst_conv snd_conv
  by (simp add: fold_index_add2_length)

lemma oei_arrays_am_clamped_aux:
  assumes "length (am_leading_indices U) = 4"
  shows "oei_arrays U geom (fb\<lparr>ams := map (min 3) (ams fb)\<rparr>) nbf charges = oei_arrays U geom fb nbf charges"
  by (simp add: oei_arrays_def oei_contribution_am_clamped[OF assms])

subsection \<open>The order-0 Boys function\<close>

lemma boys_spec_0: "boys_spec 0 x = (\<Sum>k. (- x) ^ k / (fact k * (2 * real k + 1)))"
  by (simp add: boys_spec_def)

lemma boys_spec_0_summable: "summable (\<lambda>k. (- x) ^ k / (fact k * (2 * real k + 1)))"
proof (rule summable_comparison_test')
  show "summable (\<lambda>n. inverse (fact n) * \<bar>x\<bar> ^ n)"
    by (rule summable_exp)
  fix n :: nat
  have "1 \<le> 2 * real n + 1" by simp
  then have "\<bar>x\<bar> ^ n / (fact n * (2 * real n + 1)) \<le> \<bar>x\<bar> ^ n / (fact n * 1)"
    by (intro divide_left_mono mult_left_mono) simp_all
  moreover have "norm ((- x) ^ n / (fact n * (2 * real n + 1))) = \<bar>x\<bar> ^ n / (fact n * (2 * real n + 1))"
    by (simp add: power_abs abs_mult)
  ultimately show "norm ((- x) ^ n / (fact n * (2 * real n + 1))) \<le> inverse (fact n) * \<bar>x\<bar> ^ n"
    by (simp add: divide_inverse mult.commute)
qed

text \<open>The closed form with the error function is the Boys function of order 0.\<close>

lemma erf_form_boys_spec:
  assumes "0 < x"
  shows "erf (sqrt x) * sqrt pi / (2 * sqrt x) = boys_spec 0 x"
proof -
  let ?y = "sqrt x"
  from assms have y: "0 < ?y" by simp
  have t: "(- 1) ^ n * ?y ^ (2 * n + 1) / (fact n * real (2 * n + 1))
        = ?y * ((- x) ^ n / (fact n * (2 * real n + 1)))" for n
  proof -
    have "?y ^ (2 * n) = x ^ n"
      using assms by (simp add: power_mult)
    then have "?y ^ (2 * n + 1) = ?y * x ^ n"
      by simp
    moreover have "(- x) ^ n = (- 1) ^ n * x ^ n"
      by (rule power_minus)
    moreover have "real (2 * n + 1) = 2 * real n + 1"
      by simp
    ultimately show ?thesis
      by (simp only: mult.assoc mult.left_commute times_divide_eq_right)
  qed
  have "(\<Sum>n. (- 1) ^ n * ?y ^ (2 * n + 1) / (fact n * real (2 * n + 1))) = ?y * boys_spec 0 x"
    unfolding t boys_spec_0 by (rule suminf_mult[OF boys_spec_0_summable])
  then have "erf ?y = 2 / sqrt pi * (?y * boys_spec 0 x)"
    by (simp add: erf_def)
  then show ?thesis using y by simp
qed

text \<open>The two terms of the series branch bracket the Boys function from below.\<close>

lemma boys_spec_0_bounds:
  assumes "0 \<le> x" "x \<le> 1"
  shows "1 - x / 3 \<le> boys_spec 0 x" and "boys_spec 0 x \<le> 1 - x / 3 + x\<^sup>2 / 10"
    and "0 < x \<Longrightarrow> 1 - x / 3 < boys_spec 0 x"
proof -
  define a where "a n = x ^ n / (fact n * (2 * real n + 1))" for n
  have b: "boys_spec 0 x = (\<Sum>n. (- 1) ^ n * a n)"
    unfolding boys_spec_0 a_def by (simp add: power_minus[of x])
  have pos: "0 \<le> a n" for n
    using assms by (simp add: a_def)
  have lim: "a \<longlonglongrightarrow> 0"
  proof -
    have "(\<lambda>n. (- x) ^ n / (fact n * (2 * real n + 1))) \<longlonglongrightarrow> 0"
      by (rule summable_LIMSEQ_zero[OF boys_spec_0_summable])
    then have "(\<lambda>n. norm ((- x) ^ n / (fact n * (2 * real n + 1)))) \<longlonglongrightarrow> 0"
      by (rule tendsto_norm_zero)
    moreover have "norm ((- x) ^ n / (fact n * (2 * real n + 1))) = a n" for n
      using assms by (simp add: a_def power_abs)
    ultimately show ?thesis by simp
  qed
  have mono: "a (Suc n) \<le> a n" for n
  proof -
    have "x ^ Suc n \<le> x ^ n"
      using assms by (simp add: mult_left_le_one_le)
    moreover have "fact n * (2 * real n + 1) \<le> (fact (Suc n) :: real) * (2 * real (Suc n) + 1)"
      by (intro mult_mono) simp_all
    moreover have "0 < (fact n :: real) * (2 * real n + 1)"
      by (intro mult_pos_pos) simp_all
    ultimately show ?thesis
      unfolding a_def using assms by (intro frac_le) simp_all
  qed
  have s2: "(\<Sum>i<2. (- 1) ^ i * a i) = 1 - x / 3"
    by (simp add: a_def eval_nat_numeral)
  have s3: "(\<Sum>i<3. (- 1) ^ i * a i) = 1 - x / 3 + x\<^sup>2 / 10"
    by (simp add: a_def eval_nat_numeral fact_numeral)
  have s4: "(\<Sum>i<4. (- 1) ^ i * a i) = 1 - x / 3 + x\<^sup>2 / 10 - x ^ 3 / 42"
    by (simp add: a_def eval_nat_numeral fact_numeral)
  from summable_Leibniz'(2)[OF lim pos mono, of 1]
  show "1 - x / 3 \<le> boys_spec 0 x"
    unfolding b using s2 by simp
  from summable_Leibniz'(4)[OF lim pos mono, of 1]
  show "boys_spec 0 x \<le> 1 - x / 3 + x\<^sup>2 / 10"
    unfolding b using s3 by simp
  show "1 - x / 3 < boys_spec 0 x" if "0 < x"
  proof -
    from summable_Leibniz'(2)[OF lim pos mono, of 2]
    have "1 - x / 3 + x\<^sup>2 / 10 - x ^ 3 / 42 \<le> boys_spec 0 x"
      unfolding b using s4 by simp
    moreover have "x ^ 3 / 42 < x\<^sup>2 / 10"
    proof -
      have "x ^ 3 \<le> x\<^sup>2" using assms by (simp add: eval_nat_numeral mult_left_le_one_le)
      moreover have "0 < x\<^sup>2" using that by simp
      ultimately have "5 * x ^ 3 < 21 * x\<^sup>2" by linarith
      then show ?thesis by simp
    qed
    ultimately show ?thesis by simp
  qed
qed

lemma gp_explicit:
  "gp aa bb A B = (vdiv (vadd (vscale aa A) (vscale bb B)) (aa + bb),
                   exp (- (aa * bb * dot (vsub A B) (vsub A B)) / (aa + bb)))"
  by (simp add: gp_def Let_def mult.commute)

lemma torchboys_0_explicit:
  "torchboys 0 x = (if x < 1 / 10 ^ 8 then 1 - x / 3 else erf (sqrt x) * sqrt pi / (2 * sqrt x))"
  by (simp add: torchboys_def torchboys_branch_def)

lemma masked_boys_explicit:
  "masked_boys x = (if x \<le> 1 / 10 ^ 8 then 1 - x / 3 else erf (sqrt x) * sqrt pi / (2 * sqrt x))"
  by (simp add: masked_boys_def mask_branch_def)

text \<open>The factor common to all three kernels, and their Boys argument, written out.\<close>

lemma closed_form_prefactor:
  "snd (gp aa bb A B) * snd (gp cc dd C D)
     * (normalize_s aa * normalize_s bb * normalize_s cc * normalize_s dd)
     * 2 * pi\<^sup>2 / ((aa + bb) * (cc + dd)) * sqrt (pi / (aa + bb + (cc + dd)))
   = exp (- (aa * bb * dot (vsub A B) (vsub A B)) / (aa + bb))
     * exp (- (cc * dd * dot (vsub C D) (vsub C D)) / (cc + dd))
     * ((2 * aa / pi) powr (3 / 4) * (2 * bb / pi) powr (3 / 4)
        * (2 * cc / pi) powr (3 / 4) * (2 * dd / pi) powr (3 / 4))
     * (2 * pi powr (5 / 2) / ((aa + bb) * (cc + dd) * sqrt (aa + bb + cc + dd)))"
proof -
  have s: "sqrt (pi / (aa + bb + (cc + dd))) = sqrt pi / sqrt (aa + bb + cc + dd)"
    by (simp add: real_sqrt_divide add.assoc)
  have alg: "c1 * c2 * n * 2 * p2 / g * (sp / sg) = c1 * c2 * n * (2 * (p2 * sp) / (g * sg))"
    for c1 c2 n p2 g sp sg :: real
    by simp
  show ?thesis
    unfolding gp_explicit snd_conv normalize_s_def s pi_powr_five_halves
    by (rule alg)
qed

lemma closed_form_argument:
  "dot (vsub (fst (gp aa bb A B)) (fst (gp cc dd C D))) (vsub (fst (gp aa bb A B)) (fst (gp cc dd C D)))
     / (4 * (1 / (4 * (aa + bb)) + 1 / (4 * (cc + dd))))
   = dot (vsub (vdiv (vadd (vscale aa A) (vscale bb B)) (aa + bb))
               (vdiv (vadd (vscale cc C) (vscale dd D)) (cc + dd)))
         (vsub (vdiv (vadd (vscale aa A) (vscale bb B)) (aa + bb))
               (vdiv (vadd (vscale cc C) (vscale dd D)) (cc + dd)))
     / (4 * (1 / (4 * (aa + bb)) + 1 / (4 * (cc + dd))))"
  unfolding gp_explicit fst_conv ..

lemma dot_self_nonneg: "0 \<le> dot v v"
  by (cases v) (simp add: dot_def)

subsection \<open>The Boys function at zero\<close>

text \<open>
  Claim C6.  At argument 0 the Boys function \<open>torchboys\<close> takes the series branch for every
  order \<open>n\<close> (so in particular for \<open>n\<close> from 0 to 10), both denominators of that branch are
  non-zero, and the value is \<open>1 / (2 n + 1)\<close>; the masked Boys value of \<open>oei_finish\<close> and
  \<open>tei_finish\<close>, which is of order 0, takes the series branch as well and is
  \<open>1 = 1 / (2 0 + 1)\<close>.  The branch that divides by \<open>sqrt x\<close> is not evaluated.
\<close>

theorem boys_at_zero:
  "torchboys_branch 0 = Series \<and> torchboys (real n) 0 = 1 / (2 * real n + 1)
   \<and> 2 * real n + 1 \<noteq> 0 \<and> 2 * real n + 3 \<noteq> 0
   \<and> mask_branch 0 = Series \<and> masked_boys 0 = 1 / (2 * 0 + 1)"
proof -
  have "2 * real n + 1 > 0" "2 * real n + 3 > 0" by simp_all
  then show ?thesis
    by (simp add: torchboys_def torchboys_branch_def mask_branch_def masked_boys_def)
qed

subsection \<open>Symmetry of the vectorised arrays\<close>

text \<open>
  Claim C8.  On every input on which the vectorised path returns (twenty basis functions
  per atom), the overlap and kinetic matrices of \<open>oei_setup\<close> satisfy \<open>S[i,j] = S[j,i]\<close>
  and \<open>T[i,j] = T[j,i]\<close>, and the two-electron tensor \<open>tei_finish (tei_setup ...)\<close>
  satisfies \<open>G[i,j,k,l] = G[k,l,i,j]\<close>, for all indices in range.
\<close>

theorem fast_path_symmetric:
  assumes "length basis = 20 * length geom"
    and "i < length basis" "j < length basis" "k < length basis" "l < length basis"
  shows "(\<exists>S T Vtmp ba. oei_setup geom basis n q = Inr (S, T, Vtmp, ba)
            \<and> S [i, j] = S [j, i] \<and> T [i, j] = T [j, i])
       \<and> (\<exists>G ba. tei_setup geom basis n = Inr (G, ba)
            \<and> tei_finish G ba [i, j, k, l] = tei_finish G ba [k, l, i, j])"
proof -
  from tei_setup_symmetric[OF assms, of n]
  have "\<exists>G ba. tei_setup geom basis n = Inr (G, ba)
            \<and> tei_finish G ba [i, j, k, l] = tei_finish G ba [k, l, i, j]"
    by (auto simp: tei_finish_def Let_def)
  with oei_setup_symmetric[OF assms(1-3), of n q] show ?thesis by blast
qed

theorem fast_path_symmetric_witness:
  "length (replicate 20 (1 :: real) @ replicate 20 (1 / 2)) = 20 * length [(0 :: real, 0 :: real, 0 :: real), (0, 0, 1)]
   \<and> (0 :: nat) < length (replicate 20 (1 :: real) @ replicate 20 (1 / 2))
   \<and> (20 :: nat) < length (replicate 20 (1 :: real) @ replicate 20 (1 / 2))
   \<and> (5 :: nat) < length (replicate 20 (1 :: real) @ replicate 20 (1 / 2))
   \<and> (25 :: nat) < length (replicate 20 (1 :: real) @ replicate 20 (1 / 2))
   \<and> (\<exists>S T Vtmp ba. oei_setup [(0, 0, 0), (0, 0, 1)] (replicate 20 1 @ replicate 20 (1 / 2)) 20 [1, 1]
                        = Inr (S, T, Vtmp, ba)
            \<and> S [0, 20] = S [20, 0] \<and> T [0, 20] = T [20, 0])
   \<and> (\<exists>G ba. tei_setup [(0, 0, 0), (0, 0, 1)] (replicate 20 1 @ replicate 20 (1 / 2)) 20 = Inr (G, ba)
            \<and> tei_finish G ba [0, 20, 5, 25] = tei_finish G ba [5, 25, 0, 20])"
proof -
  have h: "length (replicate 20 (1 :: real) @ replicate 20 (1 / 2)) = 20 * length [(0 :: real, 0 :: real, 0 :: real), (0, 0, 1)]"
    "(0 :: nat) < length (replicate 20 (1 :: real) @ replicate 20 (1 / 2))"
    "(20 :: nat) < length (replicate 20 (1 :: real) @ replicate 20 (1 / 2))"
    "(5 :: nat) < length (replicate 20 (1 :: real) @ replicate 20 (1 / 2))"
    "(25 :: nat) < length (replicate 20 (1 :: real) @ replicate 20 (1 / 2))"
    by simp_all
  from fast_path_symmetric[OF h, of 20 "[1, 1]"] h show ?thesis by blast
qed

subsection \<open>The argument \<open>nbf_per_atom\<close>\<close>

text \<open>
  Claim C10.  \<open>oei_setup\<close> and \<open>tei_setup\<close> return the same result for any two values of
  \<open>nbf_per_atom\<close>: every atom's center is repeated twenty times, basis function \<open>i\<close> gets
  the center of atom \<open>i div 20\<close>, and arrays are returned exactly when the basis has
  twenty functions for each atom.
\<close>

theorem nbf_per_atom_not_read:
  "oei_setup geom basis n1 q = oei_setup geom basis n2 q
   \<and> tei_setup geom basis n1 = tei_setup geom basis n2
   \<and> length (repeat_centers geom) = 20 * length geom
   \<and> (\<forall>i < 20 * length geom. repeat_centers geom ! i = geom ! (i div 20))
   \<and> ((\<exists>r. oei_setup geom basis n1 q = Inr r) \<longleftrightarrow> length basis = 20 * length geom)
   \<and> ((\<exists>r. tei_setup geom basis n1 = Inr r) \<longleftrightarrow> length basis = 20 * length geom)"
proof -
  have n1: "length (repeat_centers geom) \<noteq> 1"
    by (simp add: repeat_centers_length)
  have "(\<exists>r. oei_setup geom basis n1 q = Inr r) \<longleftrightarrow> length basis = 20 * length geom"
    by (auto simp: oei_setup_def Let_def repeat_centers_length)
  moreover have "(\<exists>r. tei_setup geom basis n1 = Inr r) \<longleftrightarrow> length basis = 20 * length geom"
    using n1 by (auto simp: tei_setup_def Let_def repeat_centers_length)
  moreover have "oei_setup geom basis n1 q = oei_setup geom basis n2 q"
    by (simp add: oei_setup_def)
  moreover have "tei_setup geom basis n1 = tei_setup geom basis n2"
    by (simp add: tei_setup_def)
  ultimately show ?thesis
    by (simp add: repeat_centers_length repeat_centers_nth)
qed

theorem nbf_per_atom_not_read_witness:
  "(25 :: nat) < 20 * length [(0 :: real, 0 :: real, 0 :: real), (0, 0, 1)]
   \<and> repeat_centers [(0, 0, 0), (0, 0, 1)] ! 25 = (0, 0, 1)
   \<and> (\<exists>r. oei_setup [(0, 0, 0), (0, 0, 1)] (replicate 40 1) 20 [1, 1] = Inr r)
   \<and> (\<exists>r. tei_setup [(0, 0, 0), (0, 0, 1)] (replicate 40 1) 20 = Inr r)
   \<and> oei_setup [(0, 0, 0), (0, 0, 1)] (replicate 40 1) 20 [1, 1]
       = oei_setup [(0, 0, 0), (0, 0, 1)] (replicate 40 1) 7 [1, 1]
   \<and> tei_setup [(0, 0, 0), (0, 0, 1)] (replicate 40 1) 20 = tei_setup [(0, 0, 0), (0, 0, 1)] (replicate 40 1) 7"
proof -
  note t = nbf_per_atom_not_read[of "[(0, 0, 0), (0, 0, 1)]" "replicate 40 1" 20 "[1, 1]" 7]
  have h: "(25 :: nat) < 20 * length [(0 :: real, 0 :: real, 0 :: real), (0, 0, 1)]"
    "length (replicate 40 (1 :: real)) = 20 * length [(0 :: real, 0 :: real, 0 :: real), (0, 0, 1)]"
    by simp_all
  from t h have "repeat_centers [(0, 0, 0), (0, 0, 1)] ! 25 = [(0 :: real, 0 :: real, 0 :: real), (0, 0, 1)] ! (25 div 20)"
    by blast
  then have c: "repeat_centers [(0, 0, 0), (0, 0, 1)] ! 25 = (0 :: real, 0 :: real, 1 :: real)"
    by simp
  from t h c show ?thesis by blast
qed

subsection \<open>The kinetic integral\<close>

text \<open>
  Claim C4.  For ket angular momenta \<open>lb, mb, nb \<ge> 0\<close> the kinetic integral is
  \<open>bb (2 (lb + mb + nb) + 3)\<close> times the overlap at \<open>(La, Lb)\<close>, minus \<open>2 bb\<^sup>2\<close> times the sum
  of the three overlaps with the ket momentum raised by 2 along one axis, minus \<open>1/2\<close> times
  the sum over the axes of \<open>q (q - 1)\<close> times the overlap with the ket momentum lowered by 2
  along that axis; a lowered term is zero whenever the ket momentum \<open>q\<close> on its axis is
  below 2.
\<close>

theorem kinetic_from_overlap:
  assumes "0 \<le> lb" "0 \<le> mb" "0 \<le> nb"
  shows "kinetic U aa (la, ma, na) bb (lb, mb, nb) PA PB prefactor =
           bb * real_of_int (2 * (lb + mb + nb) + 3) * overlap U aa (la, ma, na) bb (lb, mb, nb) PA PB prefactor
           - 2 * bb\<^sup>2 * (overlap U aa (la, ma, na) bb (lb + 2, mb, nb) PA PB prefactor
                          + overlap U aa (la, ma, na) bb (lb, mb + 2, nb) PA PB prefactor
                          + overlap U aa (la, ma, na) bb (lb, mb, nb + 2) PA PB prefactor)
           - 1 / 2 * (real_of_int (lb * (lb - 1)) * overlap U aa (la, ma, na) bb (lb - 2, mb, nb) PA PB prefactor
                      + real_of_int (mb * (mb - 1)) * overlap U aa (la, ma, na) bb (lb, mb - 2, nb) PA PB prefactor
                      + real_of_int (nb * (nb - 1)) * overlap U aa (la, ma, na) bb (lb, mb, nb - 2) PA PB prefactor)
       \<and> (lb < 2 \<longrightarrow> real_of_int (lb * (lb - 1)) * overlap U aa (la, ma, na) bb (lb - 2, mb, nb) PA PB prefactor = 0)
       \<and> (mb < 2 \<longrightarrow> real_of_int (mb * (mb - 1)) * overlap U aa (la, ma, na) bb (lb, mb - 2, nb) PA PB prefactor = 0)
       \<and> (nb < 2 \<longrightarrow> real_of_int (nb * (nb - 1)) * overlap U aa (la, ma, na) bb (lb, mb, nb - 2) PA PB prefactor = 0)"
proof -
  have z: "q * (q - 1) = 0" if "0 \<le> q" "q < 2" for q :: int
  proof -
    from that have "q = 0 \<or> q = 1" by auto
    then show ?thesis by auto
  qed
  have k: "kinetic U aa (la, ma, na) bb (lb, mb, nb) PA PB prefactor =
           bb * real_of_int (2 * (lb + mb + nb) + 3) * overlap U aa (la, ma, na) bb (lb, mb, nb) PA PB prefactor
           - 2 * bb\<^sup>2 * (overlap U aa (la, ma, na) bb (lb + 2, mb, nb) PA PB prefactor
                          + overlap U aa (la, ma, na) bb (lb, mb + 2, nb) PA PB prefactor
                          + overlap U aa (la, ma, na) bb (lb, mb, nb + 2) PA PB prefactor)
           - 1 / 2 * (real_of_int (lb * (lb - 1)) * overlap U aa (la, ma, na) bb (lb - 2, mb, nb) PA PB prefactor
                      + real_of_int (mb * (mb - 1)) * overlap U aa (la, ma, na) bb (lb, mb - 2, nb) PA PB prefactor
                      + real_of_int (nb * (nb - 1)) * overlap U aa (la, ma, na) bb (lb, mb, nb - 2) PA PB prefactor)"
    unfolding kinetic_def Let_def prod.case by (simp only: minus_mult_left[symmetric] diff_conv_add_uminus[symmetric] add_uminus_conv_diff)
  from k z[OF assms(1)] z[OF assms(2)] z[OF assms(3)] show ?thesis
    by simp
qed

theorem kinetic_from_overlap_witness:
  "(0 :: int) \<le> 1 \<and> (0 :: int) \<le> 0 \<and> (0 :: int) \<le> 2
   \<and> kinetic spec_utils 1 (0, 0, 0) 1 (1, 0, 2) (pow_table (0, 0, 0) 3) (pow_table (0, 0, 0) 3) 1 =
           1 * real_of_int (2 * (1 + 0 + 2) + 3)
             * overlap spec_utils 1 (0, 0, 0) 1 (1, 0, 2) (pow_table (0, 0, 0) 3) (pow_table (0, 0, 0) 3) 1
           - 2 * 1\<^sup>2 * (overlap spec_utils 1 (0, 0, 0) 1 (1 + 2, 0, 2) (pow_table (0, 0, 0) 3) (pow_table (0, 0, 0) 3) 1
                          + overlap spec_utils 1 (0, 0, 0) 1 (1, 0 + 2, 2) (pow_table (0, 0, 0) 3) (pow_table (0, 0, 0) 3) 1
                          + overlap spec_utils 1 (0, 0, 0) 1 (1, 0, 2 + 2) (pow_table (0, 0, 0) 3) (pow_table (0, 0, 0) 3) 1)
           - 1 / 2 * (real_of_int (1 * (1 - 1)) * overlap spec_utils 1 (0, 0, 0) 1 (1 - 2, 0, 2) (pow_table (0, 0, 0) 3) (pow_table (0, 0, 0) 3) 1
                      + real_of_int (0 * (0 - 1)) * overlap spec_utils 1 (0, 0, 0) 1 (1, 0 - 2, 2) (pow_table (0, 0, 0) 3) (pow_table (0, 0, 0) 3) 1
                      + real_of_int (2 * (2 - 1)) * overlap spec_utils 1 (0, 0, 0) 1 (1, 0, 2 - 2) (pow_table (0, 0, 0) 3) (pow_table (0, 0, 0) 3) 1)
   \<and> (1 :: int) < 2
   \<and> real_of_int (1 * (1 - 1)) * overlap spec_utils 1 (0, 0, 0) 1 (1 - 2, 0, 2) (pow_table (0, 0, 0) 3) (pow_table (0, 0, 0) 3) 1 = 0
   \<and> (0 :: int) < 2
   \<and> real_of_int (0 * (0 - 1)) * overlap spec_utils 1 (0, 0, 0) 1 (1, 0 - 2, 2) (pow_table (0, 0, 0) 3) (pow_table (0, 0, 0) 3) 1 = 0"
proof -
  have h: "(0 :: int) \<le> 1" "(0 :: int) \<le> 0" "(0 :: int) \<le> 2" "(1 :: int) < 2" "(0 :: int) < 2"
    by simp_all
  note t = kinetic_from_overlap[OF h(1-3), of spec_utils 1 0 0 0 1 "pow_table (0, 0, 0) 3" "pow_table (0, 0, 0) 3" 1]
  from t h show ?thesis by blast
qed

subsection \<open>The summation bounds of \<open>A_array\<close>\<close>

text \<open>
  Claim C5.  For one-axis angular momenta with \<open>l1 + l2 \<le> 6\<close>, \<open>A_array\<close> accumulates one
  term at each triple of \<open>A_visits\<close> and nowhere else, and every such triple \<open>(i, r, u)\<close>
  satisfies \<open>0 \<le> i \<le> l1 + l2\<close>, \<open>0 \<le> r \<le> \<lfloor>i / 2\<rfloor>\<close> and \<open>0 \<le> u \<le> \<lfloor>(i - 2 r) / 2\<rfloor>\<close>; hence
  the exponent and factorial argument \<open>i - 2 r - 2 u\<close> of \<open>A_term\<close> is non-negative (as are
  \<open>i\<close>, \<open>r\<close>, \<open>u\<close>), and the accumulation index \<open>i - 2 r - u\<close> lies in \<open>0 .. l1 + l2\<close>, inside
  the output array of length 7.
\<close>

theorem A_array_indices_in_range:
  assumes "l1 + l2 \<le> 6"
  shows "A_array U l1 l2 PA PB CP g =
           fold (\<lambda>(i, r, u) A. index_add A (i - 2 * r - u) (A_term U i r u l1 l2 PA PB CP g))
             (A_visits l1 l2) (replicate 7 0)
       \<and> length (A_array U l1 l2 PA PB CP g) = 7
       \<and> (\<forall>(i, r, u) \<in> set (A_visits l1 l2).
             0 \<le> i \<and> i \<le> l1 + l2 \<and> 0 \<le> r \<and> r \<le> i div 2 \<and> 0 \<le> u \<and> u \<le> (i - 2 * r) div 2
             \<and> 0 \<le> i - 2 * r - 2 * u
             \<and> 0 \<le> i - 2 * r - u \<and> i - 2 * r - u \<le> l1 + l2 \<and> i - 2 * r - u < 7)"
proof -
  have a: "A_array U l1 l2 PA PB CP g =
           fold (\<lambda>(i, r, u) A. index_add A (i - 2 * r - u) (A_term U i r u l1 l2 PA PB CP g))
             (A_visits l1 l2) (replicate 7 0)"
    by (simp add: A_array_def A_loops_visits Let_def)
  have b: "0 \<le> i - 2 * r - 2 * u \<and> 0 \<le> i - 2 * r - u \<and> i - 2 * r - u \<le> l1 + l2 \<and> i - 2 * r - u < 7"
    if "0 \<le> i" "i \<le> l1 + l2" "0 \<le> r" "r \<le> i div 2" "0 \<le> u" "u \<le> (i - 2 * r) div 2"
    for i r u :: int
    using that assms by auto
  have c: "\<forall>(i, r, u) \<in> set (A_visits l1 l2).
             0 \<le> i \<and> i \<le> l1 + l2 \<and> 0 \<le> r \<and> r \<le> i div 2 \<and> 0 \<le> u \<and> u \<le> (i - 2 * r) div 2
             \<and> 0 \<le> i - 2 * r - 2 * u
             \<and> 0 \<le> i - 2 * r - u \<and> i - 2 * r - u \<le> l1 + l2 \<and> i - 2 * r - u < 7"
    unfolding A_visits_set using b by blast
  from a c A_array_length[of U l1 l2 PA PB CP g] show ?thesis
    by (intro conjI)
qed

theorem A_array_indices_in_range_witness:
  "(1 :: int) + 1 \<le> 6
   \<and> A_array spec_utils 1 1 0 0 1 1 =
           fold (\<lambda>(i, r, u) A. index_add A (i - 2 * r - u) (A_term spec_utils i r u 1 1 0 0 1 1))
             (A_visits 1 1) (replicate 7 0)
   \<and> length (A_array spec_utils 1 1 0 0 1 1) = 7
   \<and> (2, 0, 1) \<in> set (A_visits 1 1)
   \<and> (0 :: int) \<le> 2 - 2 * 0 - 2 * 1 \<and> (0 :: int) \<le> 2 - 2 * 0 - 1
   \<and> (2 :: int) - 2 * 0 - 1 \<le> 1 + 1 \<and> (2 :: int) - 2 * 0 - 1 < 7"
proof -
  have h: "(1 :: int) + 1 \<le> 6" by simp
  have m: "(2, 0, 1) \<in> set (A_visits 1 1)"
    by (simp add: A_visits_set)
  note t = A_array_indices_in_range[OF h, of spec_utils 0 0 1 1]
  from t m have "(0 :: int) \<le> 2 - 2 * 0 - 2 * 1 \<and> (0 :: int) \<le> 2 - 2 * 0 - 1
   \<and> (2 :: int) - 2 * 0 - 1 \<le> 1 + 1 \<and> (2 :: int) - 2 * 0 - 1 < 7"
    by blast
  with t m h show ?thesis by blast
qed

subsection \<open>The assembled matrices\<close>

text \<open>
  Claim C1.  \<open>oei_arrays\<close> runs over the \<open>nprim\<^sup>2\<close> ordered primitive duets, each once
  (symmetric duplicates included), and for each over the component pairs \<open>(a, b)\<close> with
  \<open>a < dims[p1]\<close>, \<open>b < dims[p2]\<close>.  Each entry \<open>(i, j)\<close> of the returned \<open>S\<close>, \<open>T\<close>, \<open>V\<close> is
  the sum, over exactly those duets and component pairs whose shell offsets plus
  component indices \<open>(indices[p1] + a, indices[p2] + b)\<close> are \<open>(i, j)\<close>, of the product of
  the two contraction coefficients and the single-primitive overlap, kinetic or
  potential integral of that duet and component pair; every other term of the sum is 0.
\<close>

theorem oei_arrays_entries:
  assumes "i < nbf" "j < nbf"
  shows "fst (oei_arrays U geom fb nbf charges) ! i ! j =
           (\<Sum>duet \<leftarrow> cartesian_product [0..<length (coeffs fb)] [0..<length (coeffs fb)].
              \<Sum>a \<leftarrow> [0..int (jget (dims fb) (int (fst duet))) - 1].
                \<Sum>b \<leftarrow> [0..int (jget (dims fb) (int (snd duet))) - 1].
                  if fst (oei_contribution U geom fb charges duet a b) = (int i, int j)
                  then fst (snd (oei_contribution U geom fb charges duet a b)) else 0)
       \<and> fst (snd (oei_arrays U geom fb nbf charges)) ! i ! j =
           (\<Sum>duet \<leftarrow> cartesian_product [0..<length (coeffs fb)] [0..<length (coeffs fb)].
              \<Sum>a \<leftarrow> [0..int (jget (dims fb) (int (fst duet))) - 1].
                \<Sum>b \<leftarrow> [0..int (jget (dims fb) (int (snd duet))) - 1].
                  if fst (oei_contribution U geom fb charges duet a b) = (int i, int j)
                  then fst (snd (snd (oei_contribution U geom fb charges duet a b))) else 0)
       \<and> snd (snd (oei_arrays U geom fb nbf charges)) ! i ! j =
           (\<Sum>duet \<leftarrow> cartesian_product [0..<length (coeffs fb)] [0..<length (coeffs fb)].
              \<Sum>a \<leftarrow> [0..int (jget (dims fb) (int (fst duet))) - 1].
                \<Sum>b \<leftarrow> [0..int (jget (dims fb) (int (snd duet))) - 1].
                  if fst (oei_contribution U geom fb charges duet a b) = (int i, int j)
                  then snd (snd (snd (oei_contribution U geom fb charges duet a b))) else 0)
       \<and> length (cartesian_product [0..<length (coeffs fb)] [0..<length (coeffs fb)])
           = length (coeffs fb) * length (coeffs fb)
       \<and> distinct (cartesian_product [0..<length (coeffs fb)] [0..<length (coeffs fb)])
       \<and> set (cartesian_product [0..<length (coeffs fb)] [0..<length (coeffs fb)])
           = {0..<length (coeffs fb)} \<times> {0..<length (coeffs fb)}
       \<and> (\<forall>p1 p2 a b.
             oei_contribution U geom fb charges (p1, p2) a b =
               (let coef = jget (coeffs fb) (int p1) * jget (coeffs fb) (int p2);
                    aa = jget (exps fb) (int p1); bb = jget (exps fb) (int p2);
                    A = jget geom (int (jget (atoms fb) (int p1)));
                    B = jget geom (int (jget (atoms fb) (int p2)));
                    prefactor = exp (- aa * bb * dot (vsub A B) (vsub A B) / (aa + bb));
                    P = vdiv (vadd (vscale aa A) (vscale bb B)) (aa + bb);
                    La = jget (angular_momentum_combinations U)
                           (a + int (jget (am_leading_indices U) (int (jget (ams fb) (int p1)))));
                    Lb = jget (angular_momentum_combinations U)
                           (b + int (jget (am_leading_indices U) (int (jget (ams fb) (int p2)))))
                in ((int (jget (indices fb) (int p1)) + a, int (jget (indices fb) (int p2)) + b),
                    overlap U aa La bb Lb (pow_table (vsub P A) 3) (pow_table (vsub P B) 3) prefactor * coef,
                    kinetic U aa La bb Lb (pow_table (vsub P A) 3) (pow_table (vsub P B) 3) prefactor * coef,
                    potential U aa La bb Lb (vsub P A) (vsub P B) P prefactor geom charges * coef)))"
proof -
  have S: "fst (oei_arrays U geom fb nbf charges) ! i ! j =
           (\<Sum>duet \<leftarrow> cartesian_product [0..<length (coeffs fb)] [0..<length (coeffs fb)].
              \<Sum>a \<leftarrow> [0..int (jget (dims fb) (int (fst duet))) - 1].
                \<Sum>b \<leftarrow> [0..int (jget (dims fb) (int (snd duet))) - 1].
                  if fst (oei_contribution U geom fb charges duet a b) = (int i, int j)
                  then fst (snd (oei_contribution U geom fb charges duet a b)) else 0)"
    unfolding oei_arrays_fold fold_triple fst_conv
    by (rule oei_arrays_entry_aux[OF assms])
  have T: "fst (snd (oei_arrays U geom fb nbf charges)) ! i ! j =
           (\<Sum>duet \<leftarrow> cartesian_product [0..<length (coeffs fb)] [0..<length (coeffs fb)].
              \<Sum>a \<leftarrow> [0..int (jget (dims fb) (int (fst duet))) - 1].
                \<Sum>b \<leftarrow> [0..int (jget (dims fb) (int (snd duet))) - 1].
                  if fst (oei_contribution U geom fb charges duet a b) = (int i, int j)
                  then fst (snd (snd (oei_contribution U geom fb charges duet a b))) else 0)"
    unfolding oei_arrays_fold fold_triple fst_conv snd_conv
    by (rule oei_arrays_entry_aux[OF assms])
  have V: "snd (snd (oei_arrays U geom fb nbf charges)) ! i ! j =
           (\<Sum>duet \<leftarrow> cartesian_product [0..<length (coeffs fb)] [0..<length (coeffs fb)].
              \<Sum>a \<leftarrow> [0..int (jget (dims fb) (int (fst duet))) - 1].
                \<Sum>b \<leftarrow> [0..int (jget (dims fb) (int (snd duet))) - 1].
                  if fst (oei_contribution U geom fb charges duet a b) = (int i, int j)
                  then snd (snd (snd (oei_contribution U geom fb charges duet a b))) else 0)"
    unfolding oei_arrays_fold fold_triple snd_conv
    by (rule oei_arrays_entry_aux[OF assms])
  have D: "length (cartesian_product [0..<length (coeffs fb)] [0..<length (coeffs fb)])
           = length (coeffs fb) * length (coeffs fb)"
    "distinct (cartesian_product [0..<length (coeffs fb)] [0..<length (coeffs fb)])"
    "set (cartesian_product [0..<length (coeffs fb)] [0..<length (coeffs fb)])
           = {0..<length (coeffs fb)} \<times> {0..<length (coeffs fb)}"
    by (simp_all add: cartesian_product_length cartesian_product_distinct cartesian_product_set)
  have C: "oei_contribution U geom fb charges (p1, p2) a b =
               (let coef = jget (coeffs fb) (int p1) * jget (coeffs fb) (int p2);
                    aa = jget (exps fb) (int p1); bb = jget (exps fb) (int p2);
                    A = jget geom (int (jget (atoms fb) (int p1)));
                    B = jget geom (int (jget (atoms fb) (int p2)));
                    prefactor = exp (- aa * bb * dot (vsub A B) (vsub A B) / (aa + bb));
                    P = vdiv (vadd (vscale aa A) (vscale bb B)) (aa + bb);
                    La = jget (angular_momentum_combinations U)
                           (a + int (jget (am_leading_indices U) (int (jget (ams fb) (int p1)))));
                    Lb = jget (angular_momentum_combinations U)
                           (b + int (jget (am_leading_indices U) (int (jget (ams fb) (int p2)))))
                in ((int (jget (indices fb) (int p1)) + a, int (jget (indices fb) (int p2)) + b),
                    overlap U aa La bb Lb (pow_table (vsub P A) 3) (pow_table (vsub P B) 3) prefactor * coef,
                    kinetic U aa La bb Lb (pow_table (vsub P A) 3) (pow_table (vsub P B) 3) prefactor * coef,
                    potential U aa La bb Lb (vsub P A) (vsub P B) P prefactor geom charges * coef))"
    for p1 p2 a b
    by (simp add: oei_contribution_def Let_def)
  from S T V D C show ?thesis by blast
qed

theorem oei_arrays_entries_witness:
  "(0 :: nat) < 2 \<and> (1 :: nat) < 2
   \<and> fst (oei_arrays spec_utils [(0, 0, - 1), (0, 0, 1)]
        \<lparr>coeffs = [1, 1], exps = [1 / 2, 1 / 2], atoms = [0, 1], ams = [0, 0], indices = [0, 1], dims = [1, 1]\<rparr>
        2 [1, 1]) ! 0 ! 1 =
       (\<Sum>duet \<leftarrow> cartesian_product
                     [0..<length (coeffs \<lparr>coeffs = [1, 1], exps = [1 / 2, 1 / 2], atoms = [0, 1], ams = [0, 0],
                                          indices = [0, 1], dims = [1, 1]\<rparr>)]
                     [0..<length (coeffs \<lparr>coeffs = [1, 1], exps = [1 / 2, 1 / 2], atoms = [0, 1], ams = [0, 0],
                                          indices = [0, 1], dims = [1, 1]\<rparr>)].
          \<Sum>a \<leftarrow> [0..int (jget (dims \<lparr>coeffs = [1, 1], exps = [1 / 2, 1 / 2], atoms = [0, 1], ams = [0, 0],
                                      indices = [0, 1], dims = [1, 1]\<rparr>) (int (fst duet))) - 1].
            \<Sum>b \<leftarrow> [0..int (jget (dims \<lparr>coeffs = [1, 1], exps = [1 / 2, 1 / 2], atoms = [0, 1], ams = [0, 0],
                                        indices = [0, 1], dims = [1, 1]\<rparr>) (int (snd duet))) - 1].
              if fst (oei_contribution spec_utils [(0, 0, - 1), (0, 0, 1)]
                        \<lparr>coeffs = [1, 1], exps = [1 / 2, 1 / 2], atoms = [0, 1], ams = [0, 0],
                          indices = [0, 1], dims = [1, 1]\<rparr> [1, 1] duet a b) = (int 0, int 1)
              then fst (snd (oei_contribution spec_utils [(0, 0, - 1), (0, 0, 1)]
                        \<lparr>coeffs = [1, 1], exps = [1 / 2, 1 / 2], atoms = [0, 1], ams = [0, 0],
                          indices = [0, 1], dims = [1, 1]\<rparr> [1, 1] duet a b)) else 0)
   \<and> length (cartesian_product
               [0..<length (coeffs \<lparr>coeffs = [1, 1], exps = [1 / 2, 1 / 2], atoms = [0, 1], ams = [0, 0],
                                    indices = [0, 1], dims = [1, 1]\<rparr>)]
               [0..<length (coeffs \<lparr>coeffs = [1, 1], exps = [1 / 2, 1 / 2], atoms = [0, 1], ams = [0, 0],
                                    indices = [0, 1], dims = [1, 1]\<rparr>)]) = 4"
proof -
  have h: "(0 :: nat) < 2" "(1 :: nat) < 2" by simp_all
  note t = oei_arrays_entries[OF h, of spec_utils "[(0, 0, - 1), (0, 0, 1)]"
      "\<lparr>coeffs = [1, 1], exps = [1 / 2, 1 / 2], atoms = [0, 1], ams = [0, 0], indices = [0, 1], dims = [1, 1]\<rparr>"
      "[1, 1]"]
  have n: "length (coeffs \<lparr>coeffs = [1 :: real, 1], exps = [1 / 2, 1 / 2 :: real], atoms = [0, 1], ams = [0, 0],
                                    indices = [0, 1], dims = [1, 1]\<rparr>)
           * length (coeffs \<lparr>coeffs = [1 :: real, 1], exps = [1 / 2, 1 / 2 :: real], atoms = [0, 1], ams = [0, 0],
                                    indices = [0, 1], dims = [1, 1]\<rparr>) = 4"
    by simp
  from t h show ?thesis unfolding n[symmetric] by blast
qed

subsection \<open>Angular momentum above the supported maximum\<close>

text \<open>
  Claim C7, as stated, fails: \<open>oei_arrays\<close> checks nothing and raises nothing.  For a
  basis of one shell of angular momentum 4 (15 components) it returns \<open>15 \<times> 15\<close>
  matrices, the same ones as for that shell declared with angular momentum 3: the lookup
  \<open>am_leading_indices[4]\<close> is clamped to the last entry of the table.
\<close>

theorem oei_arrays_am_counterexample:
  "oei_arrays spec_utils [(0, 0, 0)]
      \<lparr>coeffs = [1], exps = [1], atoms = [0], ams = [4], indices = [0], dims = [15]\<rparr> 15 [1]
   = oei_arrays spec_utils [(0, 0, 0)]
      \<lparr>coeffs = [1], exps = [1], atoms = [0], ams = [3], indices = [0], dims = [15]\<rparr> 15 [1]
   \<and> length (fst (oei_arrays spec_utils [(0, 0, 0)]
      \<lparr>coeffs = [1], exps = [1], atoms = [0], ams = [4], indices = [0], dims = [15]\<rparr> 15 [1])) = 15"
proof -
  have l: "length (am_leading_indices spec_utils) = 4"
    by (simp add: spec_utils_def)
  from oei_arrays_am_clamped_aux[OF l, of "[(0, 0, 0)]"
      "\<lparr>coeffs = [1], exps = [1], atoms = [0], ams = [4], indices = [0], dims = [15]\<rparr>" 15 "[1]"]
  show ?thesis
    by (simp add: oei_arrays_lengths)
qed

text \<open>
  Claim C7, amended.  \<open>oei_arrays\<close> has no error path: for every basis it returns three
  \<open>nbf\<close>-row matrices, and with the four-entry table \<open>am_leading_indices\<close> of
  \<open>L_max = 3\<close> a shell whose angular momentum exceeds 3 is treated, through the clamped
  lookup, as having the leading index of angular momentum 3.
\<close>

theorem oei_arrays_no_am_check:
  assumes "length (am_leading_indices U) = 4"
  shows "oei_arrays U geom (fb\<lparr>ams := map (min 3) (ams fb)\<rparr>) nbf charges = oei_arrays U geom fb nbf charges
       \<and> length (fst (oei_arrays U geom fb nbf charges)) = nbf
       \<and> length (fst (snd (oei_arrays U geom fb nbf charges))) = nbf
       \<and> length (snd (snd (oei_arrays U geom fb nbf charges))) = nbf"
  using oei_arrays_am_clamped_aux[OF assms] oei_arrays_lengths by blast

theorem oei_arrays_no_am_check_witness:
  "length (am_leading_indices spec_utils) = 4
   \<and> oei_arrays spec_utils [(0, 0, 0), (0, 0, 1)]
       (\<lparr>coeffs = [1, 1], exps = [1, 2], atoms = [0, 1], ams = [5, 1], indices = [0, 21], dims = [21, 3]\<rparr>
          \<lparr>ams := map (min 3) (ams \<lparr>coeffs = [1, 1], exps = [1, 2], atoms = [0, 1], ams = [5, 1],
                                      indices = [0, 21], dims = [21, 3]\<rparr>)\<rparr>) 24 [1, 1]
     = oei_arrays spec_utils [(0, 0, 0), (0, 0, 1)]
       \<lparr>coeffs = [1, 1], exps = [1, 2], atoms = [0, 1], ams = [5, 1], indices = [0, 21], dims = [21, 3]\<rparr> 24 [1, 1]
   \<and> length (fst (oei_arrays spec_utils [(0, 0, 0), (0, 0, 1)]
       \<lparr>coeffs = [1, 1], exps = [1, 2], atoms = [0, 1], ams = [5, 1], indices = [0, 21], dims = [21, 3]\<rparr> 24 [1, 1])) = 24"
proof -
  have l: "length (am_leading_indices spec_utils) = 4"
    by (simp add: spec_utils_def)
  from oei_arrays_no_am_check[OF l, of "[(0, 0, 0), (0, 0, 1)]"
      "\<lparr>coeffs = [1, 1], exps = [1, 2], atoms = [0, 1], ams = [5, 1], indices = [0, 21], dims = [21, 3]\<rparr>" 24 "[1, 1]"] l
  show ?thesis by blast
qed

subsection \<open>The two-electron kernel in closed form\<close>

text \<open>
  Claim C3.  For positive exponents \<open>aa\<close>, \<open>bb\<close>, \<open>cc\<close>, \<open>dd\<close> and any four centers, \<open>eri\<close>
  is the product of the two Gaussian-pair prefactors \<open>exp (- aa bb |A - B|\<^sup>2 / (aa + bb))\<close>
  and \<open>exp (- cc dd |C - D|\<^sup>2 / (cc + dd))\<close>, the four normalisation constants
  \<open>(2 a / pi)\<^bsup>3/4\<^esup>\<close>, the factor \<open>2 pi\<^bsup>5/2\<^esup> / ((aa + bb) (cc + dd) sqrt (aa + bb + cc + dd))\<close>
  and the order-0 Boys value at \<open>x = |P - Q|\<^sup>2 / (4 delta)\<close>, where
  \<open>P = (aa A + bb B) / (aa + bb)\<close> and \<open>Q = (cc C + dd D) / (cc + dd)\<close> are the two
  Gaussian-product centers and \<open>delta = 1 / (4 (aa + bb)) + 1 / (4 (cc + dd))\<close>.  The Boys
  value is the one the evaluator computes: from the threshold \<open>1e-8\<close> on, the closed form
  \<open>erf (sqrt x) sqrt pi / (2 sqrt x)\<close>, which is the Boys function \<open>F 0 x\<close> itself; below the
  threshold, the truncated expansion \<open>1 - x / 3\<close>, which lies below \<open>F 0 x\<close> by at most
  \<open>x\<^sup>2 / 10 < 1e-17\<close>.  Every entry of the vectorised path (\<open>tei_setup\<close> then \<open>tei_finish\<close>)
  that belongs to these exponents and centers has the same Boys argument and is the same
  product, the threshold test there being \<open>x \<le> 1e-8\<close>.
\<close>

theorem eri_closed_form:
  assumes "0 < aa" "0 < bb" "0 < cc" "0 < dd"
  shows "(let P = vdiv (vadd (vscale aa A) (vscale bb B)) (aa + bb);
              Q = vdiv (vadd (vscale cc C) (vscale dd D)) (cc + dd);
              x = dot (vsub P Q) (vsub P Q) / (4 * (1 / (4 * (aa + bb)) + 1 / (4 * (cc + dd))));
              pre = exp (- (aa * bb * dot (vsub A B) (vsub A B)) / (aa + bb))
                    * exp (- (cc * dd * dot (vsub C D) (vsub C D)) / (cc + dd))
                    * ((2 * aa / pi) powr (3 / 4) * (2 * bb / pi) powr (3 / 4)
                       * (2 * cc / pi) powr (3 / 4) * (2 * dd / pi) powr (3 / 4))
                    * (2 * pi powr (5 / 2) / ((aa + bb) * (cc + dd) * sqrt (aa + bb + cc + dd)))
          in 0 \<le> x
           \<and> eri aa bb cc dd A B C D =
               pre * (if x < 1 / 10 ^ 8 then 1 - x / 3 else erf (sqrt x) * sqrt pi / (2 * sqrt x))
           \<and> (1 / 10 ^ 8 \<le> x \<longrightarrow> eri aa bb cc dd A B C D = pre * boys_spec 0 x)
           \<and> (x < 1 / 10 ^ 8 \<longrightarrow> 1 - x / 3 \<le> boys_spec 0 x \<and> boys_spec 0 x \<le> 1 - x / 3 + x\<^sup>2 / 10)
           \<and> (\<forall>geom basis n i j k l.
                 length basis = 20 * length geom \<and> i < length basis \<and> j < length basis
                 \<and> k < length basis \<and> l < length basis
                 \<and> aa = basis ! i \<and> bb = basis ! j \<and> cc = basis ! k \<and> dd = basis ! l
                 \<and> A = geom ! (i div 20) \<and> B = geom ! (j div 20)
                 \<and> C = geom ! (k div 20) \<and> D = geom ! (l div 20)
                 \<longrightarrow> (\<exists>G ba. tei_setup geom basis n = Inr (G, ba) \<and> ba [i, j, k, l] = x
                       \<and> tei_finish G ba [i, j, k, l] =
                           pre * (if x \<le> 1 / 10 ^ 8 then 1 - x / 3
                                  else erf (sqrt x) * sqrt pi / (2 * sqrt x)))))"
proof -
  define x where "x = dot (vsub (fst (gp aa bb A B)) (fst (gp cc dd C D))) (vsub (fst (gp aa bb A B)) (fst (gp cc dd C D)))
     / (4 * (1 / (4 * (aa + bb)) + 1 / (4 * (cc + dd))))"
  define pre where "pre = snd (gp aa bb A B) * snd (gp cc dd C D)
     * (normalize_s aa * normalize_s bb * normalize_s cc * normalize_s dd)
     * 2 * pi\<^sup>2 / ((aa + bb) * (cc + dd)) * sqrt (pi / (aa + bb + (cc + dd)))"
  have X: "dot (vsub (vdiv (vadd (vscale aa A) (vscale bb B)) (aa + bb)) (vdiv (vadd (vscale cc C) (vscale dd D)) (cc + dd)))
         (vsub (vdiv (vadd (vscale aa A) (vscale bb B)) (aa + bb)) (vdiv (vadd (vscale cc C) (vscale dd D)) (cc + dd)))
     / (4 * (1 / (4 * (aa + bb)) + 1 / (4 * (cc + dd)))) = x"
    unfolding x_def closed_form_argument ..
  have PRE: "exp (- (aa * bb * dot (vsub A B) (vsub A B)) / (aa + bb))
     * exp (- (cc * dd * dot (vsub C D) (vsub C D)) / (cc + dd))
     * ((2 * aa / pi) powr (3 / 4) * (2 * bb / pi) powr (3 / 4)
        * (2 * cc / pi) powr (3 / 4) * (2 * dd / pi) powr (3 / 4))
     * (2 * pi powr (5 / 2) / ((aa + bb) * (cc + dd) * sqrt (aa + bb + cc + dd))) = pre"
    unfolding pre_def closed_form_prefactor ..
  have x0: "0 \<le> x"
    unfolding x_def using assms by (intro divide_nonneg_nonneg dot_self_nonneg) simp
  have alg: "T * na * nb * nc * nd * c1 * c2 * 2 * p / g * s = c1 * c2 * (na * nb * nc * nd) * 2 * p / g * s * T"
    for T na nb nc nd c1 c2 p g s :: real
    by (simp add: divide_inverse mult_ac)
  have e: "eri aa bb cc dd A B C D = pre * torchboys 0 x"
    unfolding eri_unfold x_def pre_def by (rule alg)
  have e1: "eri aa bb cc dd A B C D =
               pre * (if x < 1 / 10 ^ 8 then 1 - x / 3 else erf (sqrt x) * sqrt pi / (2 * sqrt x))"
    unfolding e torchboys_0_explicit ..
  have e2: "eri aa bb cc dd A B C D = pre * boys_spec 0 x" if "1 / 10 ^ 8 \<le> x"
  proof -
    from that have "0 < x" by (rule less_le_trans[rotated]) simp
    with that show ?thesis
      unfolding e1 by (simp add: erf_form_boys_spec)
  qed
  have e3: "1 - x / 3 \<le> boys_spec 0 x \<and> boys_spec 0 x \<le> 1 - x / 3 + x\<^sup>2 / 10" if "x < 1 / 10 ^ 8"
  proof -
    from that have "x \<le> 1" by simp
    with x0 show ?thesis by (simp add: boys_spec_0_bounds)
  qed
  have e4: "\<exists>G ba. tei_setup geom basis n = Inr (G, ba) \<and> ba [i, j, k, l] = x
                       \<and> tei_finish G ba [i, j, k, l] =
                           pre * (if x \<le> 1 / 10 ^ 8 then 1 - x / 3
                                  else erf (sqrt x) * sqrt pi / (2 * sqrt x))"
    if h: "length basis = 20 * length geom" "i < length basis" "j < length basis"
      "k < length basis" "l < length basis"
      "aa = basis ! i" "bb = basis ! j" "cc = basis ! k" "dd = basis ! l"
      "A = geom ! (i div 20)" "B = geom ! (j div 20)" "C = geom ! (k div 20)" "D = geom ! (l div 20)"
    for geom basis n i j k l
  proof -
    from tei_setup_gp_form[OF h, of n]
    obtain G ba where r: "tei_setup geom basis n = Inr (G, ba)"
      and G: "G [i, j, k, l] = pre"
      and ba: "ba [i, j, k, l] = x"
      unfolding x_def pre_def by blast
    have "tei_finish G ba [i, j, k, l] = pre * masked_boys x"
      by (simp add: tei_finish_def Let_def G ba)
    with r ba show ?thesis
      unfolding masked_boys_explicit by blast
  qed
  from x0 e1 e2 e3 e4 show ?thesis
    unfolding Let_def X PRE by blast
qed


theorem eri_closed_form_witness:
  "(0 :: real) < 1 \<and> (0 :: real) < 1 / 2
   \<and> dot (vsub (vdiv (vadd (vscale 1 (0, 0, 0)) (vscale (1 / 2) (0, 0, 1))) (1 + (1 / 2))) (vdiv (vadd (vscale 1 (0, 0, 3)) (vscale (1 / 2) (0, 0, 4))) (1 + (1 / 2))))
             (vsub (vdiv (vadd (vscale 1 (0, 0, 0)) (vscale (1 / 2) (0, 0, 1))) (1 + (1 / 2))) (vdiv (vadd (vscale 1 (0, 0, 3)) (vscale (1 / 2) (0, 0, 4))) (1 + (1 / 2))))
         / (4 * (1 / (4 * (1 + (1 / 2))) + 1 / (4 * (1 + (1 / 2))))) = 27 / 4
   \<and> eri 1 (1 / 2) 1 (1 / 2) (0, 0, 0) (0, 0, 1) (0, 0, 3) (0, 0, 4) =
       (exp (- (1 * (1 / 2) * dot (vsub (0, 0, 0) (0, 0, 1)) (vsub (0, 0, 0) (0, 0, 1))) / (1 + (1 / 2)))
         * exp (- (1 * (1 / 2) * dot (vsub (0, 0, 3) (0, 0, 4)) (vsub (0, 0, 3) (0, 0, 4))) / (1 + (1 / 2)))
         * ((2 * 1 / pi) powr (3 / 4) * (2 * (1 / 2) / pi) powr (3 / 4)
            * (2 * 1 / pi) powr (3 / 4) * (2 * (1 / 2) / pi) powr (3 / 4))
         * (2 * pi powr (5 / 2) / ((1 + (1 / 2)) * (1 + (1 / 2)) * sqrt (1 + (1 / 2) + 1 + (1 / 2)))))
       * (erf (sqrt (27 / 4)) * sqrt pi / (2 * sqrt (27 / 4)))
   \<and> eri 1 (1 / 2) 1 (1 / 2) (0, 0, 0) (0, 0, 1) (0, 0, 3) (0, 0, 4) =
       (exp (- (1 * (1 / 2) * dot (vsub (0, 0, 0) (0, 0, 1)) (vsub (0, 0, 0) (0, 0, 1))) / (1 + (1 / 2)))
         * exp (- (1 * (1 / 2) * dot (vsub (0, 0, 3) (0, 0, 4)) (vsub (0, 0, 3) (0, 0, 4))) / (1 + (1 / 2)))
         * ((2 * 1 / pi) powr (3 / 4) * (2 * (1 / 2) / pi) powr (3 / 4)
            * (2 * 1 / pi) powr (3 / 4) * (2 * (1 / 2) / pi) powr (3 / 4))
         * (2 * pi powr (5 / 2) / ((1 + (1 / 2)) * (1 + (1 / 2)) * sqrt (1 + (1 / 2) + 1 + (1 / 2)))))
       * boys_spec 0 (27 / 4)
   \<and> (\<exists>G ba. tei_setup [(0, 0, 0), (0, 0, 1), (0, 0, 3), (0, 0, 4)] (replicate 20 1 @ replicate 20 (1 / 2) @ replicate 20 1 @ replicate 20 (1 / 2)) 20 = Inr (G, ba)
         \<and> ba [0, 20, 40, 60] = 27 / 4
         \<and> tei_finish G ba [0, 20, 40, 60] =
             (exp (- (1 * (1 / 2) * dot (vsub (0, 0, 0) (0, 0, 1)) (vsub (0, 0, 0) (0, 0, 1))) / (1 + (1 / 2)))
         * exp (- (1 * (1 / 2) * dot (vsub (0, 0, 3) (0, 0, 4)) (vsub (0, 0, 3) (0, 0, 4))) / (1 + (1 / 2)))
         * ((2 * 1 / pi) powr (3 / 4) * (2 * (1 / 2) / pi) powr (3 / 4)
            * (2 * 1 / pi) powr (3 / 4) * (2 * (1 / 2) / pi) powr (3 / 4))
         * (2 * pi powr (5 / 2) / ((1 + (1 / 2)) * (1 + (1 / 2)) * sqrt (1 + (1 / 2) + 1 + (1 / 2)))))
             * (erf (sqrt (27 / 4)) * sqrt pi / (2 * sqrt (27 / 4))))
   \<and> dot (vsub (vdiv (vadd (vscale 1 (0, 0, 0)) (vscale 1 (0, 0, 0))) (1 + 1)) (vdiv (vadd (vscale 1 (0, 0, 1 / 10 ^ 5)) (vscale 1 (0, 0, 1 / 10 ^ 5))) (1 + 1)))
             (vsub (vdiv (vadd (vscale 1 (0, 0, 0)) (vscale 1 (0, 0, 0))) (1 + 1)) (vdiv (vadd (vscale 1 (0, 0, 1 / 10 ^ 5)) (vscale 1 (0, 0, 1 / 10 ^ 5))) (1 + 1)))
         / (4 * (1 / (4 * (1 + 1)) + 1 / (4 * (1 + 1)))) = 1 / 10 ^ 10
   \<and> eri 1 1 1 1 (0, 0, 0) (0, 0, 0) (0, 0, 1 / 10 ^ 5) (0, 0, 1 / 10 ^ 5) =
       (exp (- (1 * 1 * dot (vsub (0, 0, 0) (0, 0, 0)) (vsub (0, 0, 0) (0, 0, 0))) / (1 + 1))
         * exp (- (1 * 1 * dot (vsub (0, 0, 1 / 10 ^ 5) (0, 0, 1 / 10 ^ 5)) (vsub (0, 0, 1 / 10 ^ 5) (0, 0, 1 / 10 ^ 5))) / (1 + 1))
         * ((2 * 1 / pi) powr (3 / 4) * (2 * 1 / pi) powr (3 / 4)
            * (2 * 1 / pi) powr (3 / 4) * (2 * 1 / pi) powr (3 / 4))
         * (2 * pi powr (5 / 2) / ((1 + 1) * (1 + 1) * sqrt (1 + 1 + 1 + 1))))
       * (1 - 1 / 10 ^ 10 / 3)
   \<and> 1 - 1 / 10 ^ 10 / 3 \<le> boys_spec 0 (1 / 10 ^ 10)
   \<and> boys_spec 0 (1 / 10 ^ 10) \<le> 1 - 1 / 10 ^ 10 / 3 + (1 / 10 ^ 10)\<^sup>2 / 10"
proof -
  have pos: "(0 :: real) < 1" "(0 :: real) < 1 / 2" by simp_all
  have x1: "dot (vsub (vdiv (vadd (vscale 1 (0, 0, 0)) (vscale (1 / 2) (0, 0, 1))) (1 + (1 / 2))) (vdiv (vadd (vscale 1 (0, 0, 3)) (vscale (1 / 2) (0, 0, 4))) (1 + (1 / 2))))
             (vsub (vdiv (vadd (vscale 1 (0, 0, 0)) (vscale (1 / 2) (0, 0, 1))) (1 + (1 / 2))) (vdiv (vadd (vscale 1 (0, 0, 3)) (vscale (1 / 2) (0, 0, 4))) (1 + (1 / 2))))
         / (4 * (1 / (4 * (1 + (1 / 2))) + 1 / (4 * (1 + (1 / 2))))) = 27 / 4"
    by (simp add: vsub_def vadd_def vscale_def vdiv_def dot_def)
  have x2: "dot (vsub (vdiv (vadd (vscale 1 (0, 0, 0)) (vscale 1 (0, 0, 0))) (1 + 1)) (vdiv (vadd (vscale 1 (0, 0, 1 / 10 ^ 5)) (vscale 1 (0, 0, 1 / 10 ^ 5))) (1 + 1)))
             (vsub (vdiv (vadd (vscale 1 (0, 0, 0)) (vscale 1 (0, 0, 0))) (1 + 1)) (vdiv (vadd (vscale 1 (0, 0, 1 / 10 ^ 5)) (vscale 1 (0, 0, 1 / 10 ^ 5))) (1 + 1)))
         / (4 * (1 / (4 * (1 + 1)) + 1 / (4 * (1 + 1)))) = 1 / 10 ^ 10"
    by (simp add: vsub_def vadd_def vscale_def vdiv_def dot_def)
  note t1 = eri_closed_form[OF pos(1) pos(2) pos(1) pos(2), of "(0, 0, 0)" "(0, 0, 1)" "(0, 0, 3)" "(0, 0, 4)",
      unfolded Let_def x1]
  note t2 = eri_closed_form[OF pos(1) pos(1) pos(1) pos(1), of "(0, 0, 0)" "(0, 0, 0)" "(0, 0, 1 / 10 ^ 5)" "(0, 0, 1 / 10 ^ 5)",
      unfolded Let_def x2]
  have b1: "\<not> (27 / 4 :: real) < 1 / 10 ^ 8" "\<not> (27 / 4 :: real) \<le> 1 / 10 ^ 8" "(1 / 10 ^ 8 :: real) \<le> 27 / 4"
    by simp_all
  have b2: "(1 / 10 ^ 10 :: real) < 1 / 10 ^ 8"
    by simp
  from t1 have a1: "eri 1 (1 / 2) 1 (1 / 2) (0, 0, 0) (0, 0, 1) (0, 0, 3) (0, 0, 4) =
       (exp (- (1 * (1 / 2) * dot (vsub (0, 0, 0) (0, 0, 1)) (vsub (0, 0, 0) (0, 0, 1))) / (1 + (1 / 2)))
         * exp (- (1 * (1 / 2) * dot (vsub (0, 0, 3) (0, 0, 4)) (vsub (0, 0, 3) (0, 0, 4))) / (1 + (1 / 2)))
         * ((2 * 1 / pi) powr (3 / 4) * (2 * (1 / 2) / pi) powr (3 / 4)
            * (2 * 1 / pi) powr (3 / 4) * (2 * (1 / 2) / pi) powr (3 / 4))
         * (2 * pi powr (5 / 2) / ((1 + (1 / 2)) * (1 + (1 / 2)) * sqrt (1 + (1 / 2) + 1 + (1 / 2)))))
       * (erf (sqrt (27 / 4)) * sqrt pi / (2 * sqrt (27 / 4)))"
    unfolding if_not_P[OF b1(1)] by blast
  from t1 b1(3) have a2: "eri 1 (1 / 2) 1 (1 / 2) (0, 0, 0) (0, 0, 1) (0, 0, 3) (0, 0, 4) =
       (exp (- (1 * (1 / 2) * dot (vsub (0, 0, 0) (0, 0, 1)) (vsub (0, 0, 0) (0, 0, 1))) / (1 + (1 / 2)))
         * exp (- (1 * (1 / 2) * dot (vsub (0, 0, 3) (0, 0, 4)) (vsub (0, 0, 3) (0, 0, 4))) / (1 + (1 / 2)))
         * ((2 * 1 / pi) powr (3 / 4) * (2 * (1 / 2) / pi) powr (3 / 4)
            * (2 * 1 / pi) powr (3 / 4) * (2 * (1 / 2) / pi) powr (3 / 4))
         * (2 * pi powr (5 / 2) / ((1 + (1 / 2)) * (1 + (1 / 2)) * sqrt (1 + (1 / 2) + 1 + (1 / 2)))))
       * boys_spec 0 (27 / 4)"
    by blast
  have h: "length (replicate 20 (1 :: real) @ replicate 20 (1 / 2) @ replicate 20 1 @ replicate 20 (1 / 2)) = 20 * length [(0 :: real, 0 :: real, 0 :: real), (0, 0, 1), (0, 0, 3), (0, 0, 4)]
      \<and> (0 :: nat) < length (replicate 20 (1 :: real) @ replicate 20 (1 / 2) @ replicate 20 1 @ replicate 20 (1 / 2))
      \<and> (20 :: nat) < length (replicate 20 (1 :: real) @ replicate 20 (1 / 2) @ replicate 20 1 @ replicate 20 (1 / 2))
      \<and> (40 :: nat) < length (replicate 20 (1 :: real) @ replicate 20 (1 / 2) @ replicate 20 1 @ replicate 20 (1 / 2))
      \<and> (60 :: nat) < length (replicate 20 (1 :: real) @ replicate 20 (1 / 2) @ replicate 20 1 @ replicate 20 (1 / 2))
      \<and> (1 :: real) = (replicate 20 1 @ replicate 20 (1 / 2) @ replicate 20 1 @ replicate 20 (1 / 2)) ! 0
      \<and> (1 / 2 :: real) = (replicate 20 1 @ replicate 20 (1 / 2) @ replicate 20 1 @ replicate 20 (1 / 2)) ! 20
      \<and> (1 :: real) = (replicate 20 1 @ replicate 20 (1 / 2) @ replicate 20 1 @ replicate 20 (1 / 2)) ! 40
      \<and> (1 / 2 :: real) = (replicate 20 1 @ replicate 20 (1 / 2) @ replicate 20 1 @ replicate 20 (1 / 2)) ! 60
      \<and> (0 :: real, 0 :: real, 0 :: real) = [(0, 0, 0), (0, 0, 1), (0, 0, 3), (0, 0, 4)] ! (0 div 20)
      \<and> (0 :: real, 0 :: real, 1 :: real) = [(0, 0, 0), (0, 0, 1), (0, 0, 3), (0, 0, 4)] ! (20 div 20)
      \<and> (0 :: real, 0 :: real, 3 :: real) = [(0, 0, 0), (0, 0, 1), (0, 0, 3), (0, 0, 4)] ! (40 div 20)
      \<and> (0 :: real, 0 :: real, 4 :: real) = [(0, 0, 0), (0, 0, 1), (0, 0, 3), (0, 0, 4)] ! (60 div 20)"
    by (simp add: nth_append)
  from t1 have "\<forall>geom basis n i j k l.
                 length basis = 20 * length geom \<and> i < length basis \<and> j < length basis
                 \<and> k < length basis \<and> l < length basis
                 \<and> 1 = basis ! i \<and> 1 / 2 = basis ! j \<and> 1 = basis ! k \<and> 1 / 2 = basis ! l
                 \<and> (0, 0, 0) = geom ! (i div 20) \<and> (0, 0, 1) = geom ! (j div 20)
                 \<and> (0, 0, 3) = geom ! (k div 20) \<and> (0, 0, 4) = geom ! (l div 20)
                 \<longrightarrow> (\<exists>G ba. tei_setup geom basis n = Inr (G, ba) \<and> ba [i, j, k, l] = 27 / 4
                       \<and> tei_finish G ba [i, j, k, l] =
                           (exp (- (1 * (1 / 2) * dot (vsub (0, 0, 0) (0, 0, 1)) (vsub (0, 0, 0) (0, 0, 1))) / (1 + (1 / 2)))
         * exp (- (1 * (1 / 2) * dot (vsub (0, 0, 3) (0, 0, 4)) (vsub (0, 0, 3) (0, 0, 4))) / (1 + (1 / 2)))
         * ((2 * 1 / pi) powr (3 / 4) * (2 * (1 / 2) / pi) powr (3 / 4)
            * (2 * 1 / pi) powr (3 / 4) * (2 * (1 / 2) / pi) powr (3 / 4))
         * (2 * pi powr (5 / 2) / ((1 + (1 / 2)) * (1 + (1 / 2)) * sqrt (1 + (1 / 2) + 1 + (1 / 2)))))
                           * (erf (sqrt (27 / 4)) * sqrt pi / (2 * sqrt (27 / 4))))"
    unfolding if_not_P[OF b1(2)] by blast
  from this[rule_format, OF h]
  have a3: "\<exists>G ba. tei_setup [(0, 0, 0), (0, 0, 1), (0, 0, 3), (0, 0, 4)] (replicate 20 1 @ replicate 20 (1 / 2) @ replicate 20 1 @ replicate 20 (1 / 2)) 20 = Inr (G, ba)
         \<and> ba [0, 20, 40, 60] = 27 / 4
         \<and> tei_finish G ba [0, 20, 40, 60] =
             (exp (- (1 * (1 / 2) * dot (vsub (0, 0, 0) (0, 0, 1)) (vsub (0, 0, 0) (0, 0, 1))) / (1 + (1 / 2)))
         * exp (- (1 * (1 / 2) * dot (vsub (0, 0, 3) (0, 0, 4)) (vsub (0, 0, 3) (0, 0, 4))) / (1 + (1 / 2)))
         * ((2 * 1 / pi) powr (3 / 4) * (2 * (1 / 2) / pi) powr (3 / 4)
            * (2 * 1 / pi) powr (3 / 4) * (2 * (1 / 2) / pi) powr (3 / 4))
         * (2 * pi powr (5 / 2) / ((1 + (1 / 2)) * (1 + (1 / 2)) * sqrt (1 + (1 / 2) + 1 + (1 / 2)))))
             * (erf (sqrt (27 / 4)) * sqrt pi / (2 * sqrt (27 / 4)))" .
  from t2 have a4: "eri 1 1 1 1 (0, 0, 0) (0, 0, 0) (0, 0, 1 / 10 ^ 5) (0, 0, 1 / 10 ^ 5) =
       (exp (- (1 * 1 * dot (vsub (0, 0, 0) (0, 0, 0)) (vsub (0, 0, 0) (0, 0, 0))) / (1 + 1))
         * exp (- (1 * 1 * dot (vsub (0, 0, 1 / 10 ^ 5) (0, 0, 1 / 10 ^ 5)) (vsub (0, 0, 1 / 10 ^ 5) (0, 0, 1 / 10 ^ 5))) / (1 + 1))
         * ((2 * 1 / pi) powr (3 / 4) * (2 * 1 / pi) powr (3 / 4)
            * (2 * 1 / pi) powr (3 / 4) * (2 * 1 / pi) powr (3 / 4))
         * (2 * pi powr (5 / 2) / ((1 + 1) * (1 + 1) * sqrt (1 + 1 + 1 + 1))))
       * (1 - 1 / 10 ^ 10 / 3)"
    unfolding if_P[OF b2] by blast
  from t2 b2 have a5: "1 - 1 / 10 ^ 10 / 3 \<le> boys_spec 0 (1 / 10 ^ 10)
       \<and> boys_spec 0 (1 / 10 ^ 10) \<le> 1 - 1 / 10 ^ 10 / 3 + (1 / 10 ^ 10)\<^sup>2 / 10"
    by blast
  from pos x1 a1 a2 a3 x2 a4 a5 show ?thesis by blast
qed

subsection \<open>The vectorised path against the single-quartet kernel\<close>




subsection \<open>The overlap integral\<close>

lemma double_factorial_values:
  "double_factorial (- 1) = 1" "double_factorial 1 = 1" "double_factorial 3 = 3" "double_factorial 5 = 15"
proof -
  show a: "double_factorial (- 1) = 1" by (simp add: double_factorial.simps[of "- 1"])
  show b: "double_factorial 1 = 1" by (simp add: double_factorial.simps[of 1])
  show c: "double_factorial 3 = 3" by (simp add: double_factorial.simps[of 3] b)
  show "double_factorial 5 = 15" by (simp add: double_factorial.simps[of 5] c)
qed


lemma spec_double_factorials_table:
  "double_factorials spec_utils = map double_factorial [0..7] @ [double_factorial (- 1)]"
proof -
  have v: "double_factorial 0 = 1" "double_factorial 2 = 2" "double_factorial 4 = 8"
    "double_factorial 6 = 48" "double_factorial 7 = 105"
  proof -
    show "double_factorial 0 = 1" by (simp add: double_factorial.simps[of 0])
    show b: "double_factorial 2 = 2" by (simp add: double_factorial.simps[of 2] double_factorial.simps[of 0])
    show c: "double_factorial 4 = 8" by (simp add: double_factorial.simps[of 4] b)
    show "double_factorial 6 = 48" by (simp add: double_factorial.simps[of 6] c)
    show "double_factorial 7 = 105" by (simp add: double_factorial.simps[of 7] double_factorial_values)
  qed
  have u: "[0..7] = [0, 1, 2, 3, 4, 5, 6, 7 :: int]"
    by (simp add: upto_rec1)
  show ?thesis
    unfolding u by (simp add: spec_utils_def v double_factorial_values)
qed

text \<open>With the helpers as the specification describes them, the component of two s functions is 1.\<close>

lemma overlap_component_s_s:
  "overlap_component spec_utils 0 0 [1, 0, 0, 0] [1, 0, 0, 0] gamma = 1"
  by (simp add: overlap_component_def overlap_component_scope_eq spec_utils_def
      new_binomial_prefactor_spec_def jget_def Let_def)




end
